theory Spec2Isabelle
  imports Main
begin

section \<open>PDF Metadata Updater\<close>

text \<open>
  A shallow embedding of \<^verbatim>\<open>src/PDF-Metadata-Updater.py\<close>. The script is a sequence of
  calls into three libraries (\<^verbatim>\<open>os\<close>, \<^verbatim>\<open>configparser\<close>, \<^verbatim>\<open>PyPDF2\<close>), so the embedding has
  two layers: the library operations the script calls, written out from the behaviour of the
  library, and the functions of the script itself (\<open>create_config\<close>, \<open>update_config\<close>,
  \<open>process_pdf\<close> and the body of \<open>__main__\<close>), translated statement by statement.

  Every exception becomes a \<open>Raised\<close> result that carries the state reached when it was
  raised. Calls to \<^verbatim>\<open>print\<close> are left out: they write to the terminal only and no later
  statement reads what they wrote.
\<close>

subsection \<open>Strings and paths\<close>

text \<open>
  A Python \<^verbatim>\<open>str\<close> is modelled as a \<open>string\<close>, one \<open>char\<close> per code point below 256.
  \<open>lower\<close> is \<^verbatim>\<open>str.lower\<close> on that range: the capital letters of ASCII and of Latin-1
  move up by 32, every other code point stays.
\<close>

definition lower_char :: "char \<Rightarrow> char" where
  "lower_char c =
     (let n = (of_char c :: nat)
      in if (65 \<le> n \<and> n \<le> 90) \<or> (192 \<le> n \<and> n \<le> 214) \<or> (216 \<le> n \<and> n \<le> 222)
         then char_of (n + 32) else c)"

definition lower :: "string \<Rightarrow> string" where
  "lower s = map lower_char s"

text \<open>
  \<^verbatim>\<open>str.strip\<close> with no argument removes the white space at both ends; below 256 the
  white space is the code points 9 to 13, 28 to 32, 133 and 160.
\<close>

definition isspace :: "char \<Rightarrow> bool" where
  "isspace c = ((of_char c :: nat) \<in> set [9, 10, 11, 12, 13, 28, 29, 30, 31, 32, 133, 160])"

definition strip :: "string \<Rightarrow> string" where
  "strip s = rev (dropWhile isspace (rev (dropWhile isspace s)))"

definition startswith :: "string \<Rightarrow> string \<Rightarrow> bool" where
  "startswith s pre = (take (length pre) s = pre)"

definition endswith :: "string \<Rightarrow> string \<Rightarrow> bool" where
  "endswith s suf = (length suf \<le> length s \<and> drop (length s - length suf) s = suf)"

text \<open>\<^verbatim>\<open>os.path.join\<close> with two arguments and \<^verbatim>\<open>os.path.basename\<close>, as in \<^verbatim>\<open>posixpath\<close>.\<close>

definition path_join :: "string \<Rightarrow> string \<Rightarrow> string" where
  "path_join a b =
     (if startswith b ''/'' then b
      else if a = [] \<or> endswith a ''/'' then a @ b
      else a @ ''/'' @ b)"

definition basename :: "string \<Rightarrow> string" where
  "basename p = rev (takeWhile (\<lambda>c. c \<noteq> CHR ''/'') (rev p))"

subsection \<open>Exceptions and results\<close>

datatype error =
    EOFError
  | TypeError
  | ValueError
  | IndexError
  | FileNotFoundError
  | PermissionError
  | UnicodeDecodeError
  | NoSectionError
  | DuplicateSectionError
  | ParsingError
  | InterpolationDepthError
  | InterpolationSyntaxError
  | InterpolationMissingOptionError
  | PdfReadError

datatype ('a, 's) result = Returned 'a 's | Raised error 's

subsection \<open>The configparser library\<close>

text \<open>
  A \<^verbatim>\<open>ConfigParser\<close> object holds the options of the DEFAULT section and a dictionary of
  named sections. Option names pass through \<open>optionxform\<close>, which lowercases them.
\<close>

type_synonym options = "string \<rightharpoonup> string"

record ConfigParser =
  cp_defaults :: options
  cp_sections :: "string \<rightharpoonup> options"

definition new_ConfigParser :: ConfigParser where
  "new_ConfigParser = \<lparr>cp_defaults = Map.empty, cp_sections = Map.empty\<rparr>"

definition default_section :: string where
  "default_section = ''DEFAULT''"

definition optionxform :: "string \<Rightarrow> string" where
  "optionxform optionstr = lower optionstr"

definition MAX_INTERPOLATION_DEPTH :: nat where
  "MAX_INTERPOLATION_DEPTH = 10"

text \<open>
  \<open>KEYCRE_match s\<close> matches the regular expression \<^verbatim>\<open>%\(([^)]+)\)s\<close> at the start of
  \<open>s\<close> and returns the group and what follows the match.
\<close>

definition KEYCRE_match :: "string \<Rightarrow> (string \<times> string) option" where
  "KEYCRE_match s =
     (case s of
        c1 # c2 # t \<Rightarrow>
          if c1 = CHR ''%'' \<and> c2 = CHR ''(''
          then (let name = takeWhile (\<lambda>c. c \<noteq> CHR '')'') t;
                    after = dropWhile (\<lambda>c. c \<noteq> CHR '')'') t
                in if name \<noteq> [] \<and> take 2 after = '')s''
                   then Some (name, drop 2 after) else None)
          else None
      | _ \<Rightarrow> None)"

lemma KEYCRE_match_shorter:
  "KEYCRE_match s = Some (name, r) \<Longrightarrow> length r < length s"
proof -
  assume m: "KEYCRE_match s = Some (name, r)"
  then obtain c1 c2 t where s: "s = c1 # c2 # t"
    by (cases s; cases "tl s") (auto simp: KEYCRE_match_def)
  from m s have "r = drop 2 (dropWhile (\<lambda>c. c \<noteq> CHR '')'') t)"
    by (auto simp: KEYCRE_match_def Let_def split: if_splits)
  moreover have "length (dropWhile (\<lambda>c. c \<noteq> CHR '')'') t) \<le> length t"
    by (rule length_dropWhile_le)
  ultimately show ?thesis using s by simp
qed

text \<open>\<^verbatim>\<open>value.replace('%%', '')\<close> and \<^verbatim>\<open>_KEYCRE.sub('', tmp_value)\<close> of \<open>before_set\<close>.\<close>

fun remove_escaped :: "string \<Rightarrow> string" where
  "remove_escaped (a # b # t) =
     (if a = CHR ''%'' \<and> b = CHR ''%'' then remove_escaped t
      else a # remove_escaped (b # t))"
| "remove_escaped s = s"

function KEYCRE_sub :: "string \<Rightarrow> string" where
  "KEYCRE_sub [] = []"
| "KEYCRE_sub (c # t) =
     (case KEYCRE_match (c # t) of
        Some (name, r) \<Rightarrow> KEYCRE_sub r
      | None \<Rightarrow> c # KEYCRE_sub t)"
  by pat_completeness auto
termination
  by (relation "measure length") (auto dest: KEYCRE_match_shorter)

definition before_set :: "string \<Rightarrow> error + string" where
  "before_set v =
     (let tmp_value = KEYCRE_sub (remove_escaped v)
      in if CHR ''%'' \<in> set tmp_value then Inl ValueError else Inr v)"

text \<open>
  \<open>_interpolate_some\<close> appends to the list \<open>accum\<close>; here it returns the text it appends.
  \<open>interpolate_while\<close> is its \<^verbatim>\<open>while rest:\<close> loop.
\<close>

function interpolate_some :: "options \<Rightarrow> string \<Rightarrow> nat \<Rightarrow> error + string"
  and interpolate_while :: "options \<Rightarrow> string \<Rightarrow> nat \<Rightarrow> error + string" where
  "interpolate_some m rest depth =
     (if depth > MAX_INTERPOLATION_DEPTH then Inl InterpolationDepthError
      else interpolate_while m rest depth)"
| "interpolate_while m rest depth =
     (if rest = [] then Inr []
      else
        let pre = takeWhile (\<lambda>c. c \<noteq> CHR ''%'') rest;
            rest1 = dropWhile (\<lambda>c. c \<noteq> CHR ''%'') rest
        in if rest1 = [] then Inr rest
           else
             let c = take 1 (drop 1 rest1)
             in if c = ''%'' then
                  (case interpolate_while m (drop 2 rest1) depth of
                     Inl e \<Rightarrow> Inl e
                   | Inr r \<Rightarrow> Inr (pre @ ''%'' @ r))
                else if c = ''('' then
                  (case KEYCRE_match rest1 of
                     None \<Rightarrow> Inl InterpolationSyntaxError
                   | Some (name, rest2) \<Rightarrow>
                       (case m (optionxform name) of
                          None \<Rightarrow> Inl InterpolationMissingOptionError
                        | Some v \<Rightarrow>
                            (case (if CHR ''%'' \<in> set v
                                   then interpolate_some m v (depth + 1)
                                   else Inr v) of
                               Inl e \<Rightarrow> Inl e
                             | Inr a \<Rightarrow>
                                 (case interpolate_while m rest2 depth of
                                    Inl e \<Rightarrow> Inl e
                                  | Inr r \<Rightarrow> Inr (pre @ a @ r)))))
                else Inl InterpolationSyntaxError)"
  by pat_completeness auto
termination
proof (relation "inv_image (less_than <*lex*> less_than)
     (\<lambda>x. case x of
        Inl (m, rest, depth) \<Rightarrow> (if depth > MAX_INTERPOLATION_DEPTH then 0 else 2 * (MAX_INTERPOLATION_DEPTH + 1 - depth) + 2, length rest)
      | Inr (m, rest, depth) \<Rightarrow> (2 * (MAX_INTERPOLATION_DEPTH + 1 - depth) + 1, length rest))", goal_cases)
  case 1
  show ?case by (intro wf_inv_image wf_lex_prod wf_less_than)
next
  case (2 m rest depth)
  then show ?case by simp
next
  case (3 m rest depth pre rest1 c)
  have "length rest1 \<le> length rest"
    unfolding 3 by (rule length_dropWhile_le)
  moreover have "length (drop 2 rest1) < length rest1"
    using 3 by (cases rest1) auto
  ultimately show ?case by simp
next
  case (4 m rest depth pre rest1 c x2 name rest2 v)
  then show ?case by (auto simp: MAX_INTERPOLATION_DEPTH_def)
next
  case (5 m rest depth pre rest1 c x2 name rest2 v a)
  have "length rest1 \<le> length rest"
    unfolding 5 by (rule length_dropWhile_le)
  moreover have "length rest2 < length rest1"
    using 5 KEYCRE_match_shorter[of rest1 name rest2] by simp
  ultimately show ?case by simp
qed

definition before_get :: "options \<Rightarrow> string \<Rightarrow> error + string" where
  "before_get d v = interpolate_some d v 1"

text \<open>
  \<open>unify_values\<close> is the lookup chain of \<open>get\<close>: the section first, then DEFAULT. The script
  always calls \<open>get\<close> with \<^verbatim>\<open>fallback=""\<close>; \<open>fallback\<close> replaces a missing section and a
  missing option, and no other exception.
\<close>

definition unify_values :: "ConfigParser \<Rightarrow> string \<Rightarrow> error + options" where
  "unify_values cp section =
     (case cp_sections cp section of
        None \<Rightarrow> if section \<noteq> default_section then Inl NoSectionError
                else Inr (cp_defaults cp)
      | Some sectiondict \<Rightarrow> Inr (cp_defaults cp ++ sectiondict))"

definition ConfigParser_get :: "ConfigParser \<Rightarrow> string \<Rightarrow> string \<Rightarrow> string \<Rightarrow> error + string" where
  "ConfigParser_get cp section option fallback =
     (case unify_values cp section of
        Inl e \<Rightarrow> Inr fallback
      | Inr d \<Rightarrow>
          (case d (optionxform option) of
             None \<Rightarrow> Inr fallback
           | Some v \<Rightarrow> before_get d v))"

definition ConfigParser_set :: "ConfigParser \<Rightarrow> string \<Rightarrow> string \<Rightarrow> string \<Rightarrow> error + ConfigParser" where
  "ConfigParser_set cp section option v =
     (case (if v \<noteq> [] then before_set v else Inr v) of
        Inl e \<Rightarrow> Inl e
      | Inr v' \<Rightarrow>
          if section = [] \<or> section = default_section
          then Inr (cp\<lparr>cp_defaults := (cp_defaults cp)(optionxform option \<mapsto> v')\<rparr>)
          else (case cp_sections cp section of
                  None \<Rightarrow> Inl NoSectionError
                | Some sectdict \<Rightarrow>
                    Inr (cp\<lparr>cp_sections :=
                           (cp_sections cp)(section \<mapsto> sectdict(optionxform option \<mapsto> v'))\<rparr>)))"

definition ConfigParser_add_section :: "ConfigParser \<Rightarrow> string \<Rightarrow> error + ConfigParser" where
  "ConfigParser_add_section cp section =
     (if section = default_section then Inl ValueError
      else if cp_sections cp section \<noteq> None then Inl DuplicateSectionError
      else Inr (cp\<lparr>cp_sections := (cp_sections cp)(section \<mapsto> Map.empty)\<rparr>))"

subsection \<open>The PyPDF2 library\<close>

text \<open>
  The script is generic in the page: \<open>'p\<close> is the type of page objects and
  \<^verbatim>\<open>PageObject.merge_page\<close> is a parameter \<open>merge_page\<close> of the functions that call it. A
  document is its list of pages and its information dictionary. A new \<^verbatim>\<open>PdfWriter\<close> has no
  pages and names itself as producer.
\<close>

record 'p pdf =
  pages :: "'p list"
  info :: "string \<rightharpoonup> string"

definition PdfWriter :: "'p pdf" where
  "PdfWriter = \<lparr>pages = [], info = [''/Producer'' \<mapsto> ''PyPDF2'']\<rparr>"

definition add_page :: "'p pdf \<Rightarrow> 'p \<Rightarrow> 'p pdf" where
  "add_page writer page = writer\<lparr>pages := pages writer @ [page]\<rparr>"

definition add_metadata :: "'p pdf \<Rightarrow> (string \<times> string) list \<Rightarrow> 'p pdf" where
  "add_metadata writer infos = writer\<lparr>info := info writer ++ map_of infos\<rparr>"

text \<open>
  \<^verbatim>\<open>PageObject.merge_page\<close> of PyPDF2 (\<^verbatim>\<open>_merge_page\<close>), as far as the content stream goes.
  A page has the operations of its content stream, or none when it has no \<^verbatim>\<open>/Contents\<close>,
  and its other entries (boxes, resources, annotations). Merging always gives the page a new
  content stream: the page's own operations between the operators \<open>q\<close> and \<open>Q\<close>
  (\<^verbatim>\<open>_push_pop_gs\<close>), then those of \<open>page2\<close>, clipped to its box and with its resource
  names renamed, between \<open>q\<close> and \<open>Q\<close> again. The clipping and renaming of the operations
  of \<open>page2\<close> and the merging of the other entries are the parameters \<open>clip_rename\<close> and
  \<open>merge_entries\<close>.
\<close>

datatype operation = Operation "string list" string

record 'x page =
  contents :: "operation list option"
  entries :: 'x

definition push_pop_gs :: "operation list \<Rightarrow> operation list" where
  "push_pop_gs ops = Operation [] ''q'' # ops @ [Operation [] ''Q'']"

definition PageObject_merge_page ::
  "('x page \<Rightarrow> 'x page \<Rightarrow> operation list \<Rightarrow> operation list) \<Rightarrow> ('x \<Rightarrow> 'x \<Rightarrow> 'x) \<Rightarrow>
   'x page \<Rightarrow> 'x page \<Rightarrow> 'x page" where
  "PageObject_merge_page clip_rename merge_entries self page2 =
     \<lparr>contents =
        Some ((case contents self of None \<Rightarrow> [] | Some original \<Rightarrow> push_pop_gs original) @
              (case contents page2 of
                 None \<Rightarrow> []
               | Some page2content \<Rightarrow> push_pop_gs (clip_rename self page2 page2content))),
      entries = merge_entries (entries self) (entries page2)\<rparr>"

subsection \<open>The machine state\<close>

text \<open>
  A file holds what a parser makes of it: the DEFAULT options and the sections of an INI file,
  a PDF document, or \<open>Junk\<close>, which neither parser accepts; \<open>Junk\<close> carries the exception
  \<^verbatim>\<open>config.read\<close> raises on the file and the one \<^verbatim>\<open>PdfReader\<close> raises on it.

  The state is the one \<^verbatim>\<open>ConfigParser\<close> object of the run, the lines still to come on
  standard input, the files by path, and three logs, oldest entry first: \<open>written\<close>, the
  paths opened for writing; \<open>pdf_reads\<close>, the paths \<^verbatim>\<open>PdfReader\<close> has opened and parsed;
  \<open>transcript\<close>, each prompt of \<^verbatim>\<open>input\<close> with the line typed in reply. \<open>unwritable\<close>
  gives, for a path that cannot be opened for writing (a missing folder, a read-only file, a
  directory), the exception \<^verbatim>\<open>open\<close> raises. A line of input holds no line break.
\<close>

datatype 'p content = Ini options "string \<rightharpoonup> options" | Pdf "'p pdf" | Junk error error

record 'p state =
  config :: ConfigParser
  stdin :: "string list"
  fs :: "string \<rightharpoonup> 'p content"
  written :: "string list"
  pdf_reads :: "string list"
  transcript :: "(string \<times> string) list"
  unwritable :: "string \<rightharpoonup> error"

fun and_then :: "('a, 's) result \<Rightarrow> ('a \<Rightarrow> 's \<Rightarrow> ('b, 's) result) \<Rightarrow> ('b, 's) result" where
  "and_then (Returned a s) f = f a s"
| "and_then (Raised e s) f = Raised e s"

definition input :: "string \<Rightarrow> 'p state \<Rightarrow> (string, 'p state) result" where
  "input prompt s =
     (case stdin s of
        [] \<Rightarrow> Raised EOFError s
      | l # ls \<Rightarrow> Returned l (s\<lparr>stdin := ls, transcript := transcript s @ [(prompt, l)]\<rparr>))"

definition isfile :: "string \<Rightarrow> 'p state \<Rightarrow> bool" where
  "isfile path s = (fs s path \<noteq> None)"

definition config_get :: "string \<Rightarrow> string \<Rightarrow> string \<Rightarrow> 'p state \<Rightarrow> (string, 'p state) result" where
  "config_get section option fallback s =
     (case ConfigParser_get (config s) section option fallback of
        Inl e \<Rightarrow> Raised e s
      | Inr v \<Rightarrow> Returned v s)"

definition config_set :: "string \<Rightarrow> string \<Rightarrow> string \<Rightarrow> 'p state \<Rightarrow> (unit, 'p state) result" where
  "config_set section option v s =
     (case ConfigParser_set (config s) section option v of
        Inl e \<Rightarrow> Raised e s
      | Inr cp \<Rightarrow> Returned () (s\<lparr>config := cp\<rparr>))"

definition config_add_section :: "string \<Rightarrow> 'p state \<Rightarrow> (unit, 'p state) result" where
  "config_add_section section s =
     (case ConfigParser_add_section (config s) section of
        Inl e \<Rightarrow> Raised e s
      | Inr cp \<Rightarrow> Returned () (s\<lparr>config := cp\<rparr>))"

text \<open>
  \<^verbatim>\<open>config.read(filename)\<close> skips a file it cannot open and merges the sections of one it
  can parse into the parser. A PDF is a binary file, which the text decoder refuses.
\<close>

definition read_into :: "ConfigParser \<Rightarrow> options \<Rightarrow> (string \<rightharpoonup> options) \<Rightarrow> ConfigParser" where
  "read_into cp d secs =
     cp\<lparr>cp_defaults := cp_defaults cp ++ d,
        cp_sections := (\<lambda>name. case secs name of
                                  None \<Rightarrow> cp_sections cp name
                                | Some opts \<Rightarrow>
                                    Some ((case cp_sections cp name of
                                             None \<Rightarrow> Map.empty
                                           | Some cursect \<Rightarrow> cursect) ++ opts))\<rparr>"

definition config_read :: "string \<Rightarrow> 'p state \<Rightarrow> (unit, 'p state) result" where
  "config_read filename s =
     (case fs s filename of
        None \<Rightarrow> Returned () s
      | Some (Ini d secs) \<Rightarrow> Returned () (s\<lparr>config := read_into (config s) d secs\<rparr>)
      | Some (Pdf d) \<Rightarrow> Raised UnicodeDecodeError s
      | Some (Junk ini_error pdf_error) \<Rightarrow> Raised ini_error s)"

text \<open>
  \<^verbatim>\<open>config.write\<close> writes text: a header line for each section and a line
  \<^verbatim>\<open>name = value\<close> for each option. \<open>config_text\<close> is what that text parses to: the same
  sections and option names, each value without the white space at its ends (the parser
  strips it from \<^verbatim>\<open>name =  Acme \<close>). Names and values that came from a file or from
  \<open>update_config\<close> hold nothing else that the text would change.
\<close>

definition reparsed :: "options \<Rightarrow> options" where
  "reparsed opts = (\<lambda>name. map_option strip (opts name))"

definition config_text :: "ConfigParser \<Rightarrow> 'p content" where
  "config_text cp =
     Ini (reparsed (cp_defaults cp)) (\<lambda>section. map_option reparsed (cp_sections cp section))"

text \<open>
  The statement \<^verbatim>\<open>with open(config_file, 'w') as config_file: config.write(config_file)\<close>.
  The name \<open>config_file\<close> holds a \<^verbatim>\<open>str\<close> before the statement and the file object
  after it, and \<^verbatim>\<open>open\<close> raises TypeError when its first argument is a file object. The
  statement returns the new binding of \<open>config_file\<close>.
\<close>

datatype pyobj = Str string | TextIOWrapper

definition with_open_write_config :: "pyobj \<Rightarrow> 'p state \<Rightarrow> (pyobj, 'p state) result" where
  "with_open_write_config config_file s =
     (case config_file of
        TextIOWrapper \<Rightarrow> Raised TypeError s
      | Str path \<Rightarrow>
          (case unwritable s path of
             Some e \<Rightarrow> Raised e s
           | None \<Rightarrow>
               Returned TextIOWrapper
                 (s\<lparr>fs := (fs s)(path \<mapsto> config_text (config s)),
                    written := written s @ [path]\<rparr>)))"

definition PdfReader :: "string \<Rightarrow> 'p state \<Rightarrow> ('p list, 'p state) result" where
  "PdfReader path s =
     (case fs s path of
        None \<Rightarrow> Raised FileNotFoundError s
      | Some (Pdf d) \<Rightarrow> Returned (pages d) (s\<lparr>pdf_reads := pdf_reads s @ [path]\<rparr>)
      | Some (Ini d secs) \<Rightarrow> Raised PdfReadError s
      | Some (Junk ini_error pdf_error) \<Rightarrow> Raised pdf_error s)"

definition PdfWriter_write :: "'p pdf \<Rightarrow> string \<Rightarrow> 'p state \<Rightarrow> (unit, 'p state) result" where
  "PdfWriter_write writer path s =
     (case unwritable s path of
        Some e \<Rightarrow> Raised e s
      | None \<Rightarrow>
          Returned () (s\<lparr>fs := (fs s)(path \<mapsto> Pdf writer), written := written s @ [path]\<rparr>))"

subsection \<open>The script\<close>

definition create_config :: "string \<Rightarrow> 'p state \<Rightarrow> (unit, 'p state) result" where
  "create_config config_file s0 =
     and_then (config_add_section ''Metadata'' s0) (\<lambda>_ s.
     and_then (with_open_write_config (Str config_file) s) (\<lambda>_ s.
     Returned () s))"

text \<open>
  \<open>update_config\<close>, lines 88 to 129. Each of the two blocks ends with the binding of
  \<open>config_file\<close> it leaves behind, which the next block starts from.
\<close>

definition update_config :: "string \<Rightarrow> 'p state \<Rightarrow> (unit, 'p state) result" where
  "update_config config_file0 s0 =
     and_then (config_read config_file0 s0) (\<lambda>_ s.
     and_then (config_get ''Metadata'' ''Producer'' [] s) (\<lambda>producer s.
     and_then (config_get ''Metadata'' ''Creator'' [] s) (\<lambda>creator s.
     and_then
       (if producer \<noteq> [] then
          and_then (config_get ''Metadata'' ''Producer'' [] s) (\<lambda>_ s.
          and_then (input ''Do you want to use this value? (y/n): '' s) (\<lambda>answer s.
            let confirm = lower answer
            in if confirm = ''n'' then
                 and_then (input ''Enter the value for Producer: '' s) (\<lambda>producer s.
                 and_then (config_set ''Metadata'' ''Producer'' producer s) (\<lambda>_ s.
                 with_open_write_config (Str config_file0) s))
               else Returned (Str config_file0) s))
        else
          and_then (input ''Enter the value for Producer: '' s) (\<lambda>producer s.
          and_then (config_set ''Metadata'' ''Producer'' producer s) (\<lambda>_ s.
          with_open_write_config (Str config_file0) s)))
       (\<lambda>config_file s.
     and_then
       (if creator \<noteq> [] then
          and_then (config_get ''Metadata'' ''Creator'' [] s) (\<lambda>_ s.
          and_then (input ''Do you want to use this value? (y/n): '' s) (\<lambda>answer s.
            let confirm = lower answer
            in if confirm = ''n'' then
                 and_then (input ''Enter the value for Creator: '' s) (\<lambda>creator s.
                 and_then (config_set ''Metadata'' ''Creator'' creator s) (\<lambda>_ s.
                 with_open_write_config config_file s))
               else Returned config_file s))
        else
          and_then (input ''Enter the value for Creator: '' s) (\<lambda>creator s.
          and_then (config_set ''Metadata'' ''Creator'' creator s) (\<lambda>_ s.
          with_open_write_config config_file s)))
       (\<lambda>_ s. Returned () s)))))"

text \<open>
  The page loop of \<open>process_pdf\<close>, lines 148 to 151, over the page numbers still to do. Each
  round reads the file again and merges the page of the first reader with the page of the
  same number of the new one. \<^verbatim>\<open>merge_page\<close> changes the page of the first reader in
  place; the pages of a reader are taken to be distinct objects, so no later round sees the
  change.
\<close>

fun copy_pages ::
  "('p \<Rightarrow> 'p \<Rightarrow> 'p) \<Rightarrow> string \<Rightarrow> 'p list \<Rightarrow> nat list \<Rightarrow> 'p pdf \<Rightarrow> 'p state \<Rightarrow> ('p pdf, 'p state) result" where
  "copy_pages merge_page original_file_path pdf2 [] updater s = Returned updater s"
| "copy_pages merge_page original_file_path pdf2 (page_num # todo) updater s =
     (if page_num < length pdf2 then
        and_then (PdfReader original_file_path s) (\<lambda>again s.
          if page_num < length again then
            copy_pages merge_page original_file_path pdf2 todo
              (add_page updater (merge_page (pdf2 ! page_num) (again ! page_num))) s
          else Raised IndexError s)
      else Raised IndexError s)"

definition process_pdf ::
  "('p \<Rightarrow> 'p \<Rightarrow> 'p) \<Rightarrow> string \<Rightarrow> string \<Rightarrow> 'p state \<Rightarrow> (unit, 'p state) result" where
  "process_pdf merge_page original_file_path output_folder s0 =
     and_then (PdfReader original_file_path s0) (\<lambda>pdf2 s.
     and_then (copy_pages merge_page original_file_path pdf2 [0..<length pdf2] PdfWriter s)
       (\<lambda>updater s.
     and_then (config_get ''Metadata'' ''Producer'' [] s) (\<lambda>producer s.
     and_then (config_get ''Metadata'' ''Creator'' [] s) (\<lambda>creator s.
       let updater' = add_metadata updater [(''/Producer'', producer), (''/Creator'', creator)];
           output_file_path = path_join output_folder (basename original_file_path)
       in PdfWriter_write updater' output_file_path s))))"

text \<open>
  The loop of \<open>__main__\<close>, lines 188 to 191, over the names \<^verbatim>\<open>os.listdir\<close> returned, and
  \<open>__main__\<close> from line 176 on. The three folders \<open>create_folders\<close> returns and the listing of
  the input folder are parameters.
\<close>

fun batch ::
  "('p \<Rightarrow> 'p \<Rightarrow> 'p) \<Rightarrow> string \<Rightarrow> string \<Rightarrow> string list \<Rightarrow> 'p state \<Rightarrow> (unit, 'p state) result" where
  "batch merge_page input_folder output_folder [] s = Returned () s"
| "batch merge_page input_folder output_folder (original_file # todo) s =
     (if endswith original_file ''.pdf'' then
        and_then (process_pdf merge_page (path_join input_folder original_file) output_folder s)
          (\<lambda>_ s. batch merge_page input_folder output_folder todo s)
      else batch merge_page input_folder output_folder todo s)"

definition main ::
  "('p \<Rightarrow> 'p \<Rightarrow> 'p) \<Rightarrow> string \<Rightarrow> string \<Rightarrow> string \<Rightarrow> string list \<Rightarrow> 'p state \<Rightarrow> (unit, 'p state) result" where
  "main merge_page output_folder input_folder config_folder listing s0 =
     (let s = s0\<lparr>config := new_ConfigParser\<rparr>;
          config_file = path_join config_folder ''config.ini''
      in and_then (if \<not> isfile config_file s then create_config config_file s
                   else Returned () s) (\<lambda>_ s.
         and_then (update_config config_file s) (\<lambda>_ s.
         batch merge_page input_folder output_folder listing s)))"

subsection \<open>Observations\<close>

text \<open>
  What the theorems look at: the state a run ends in, the exception it ends with, the raw
  value the parser holds for an option of section Metadata (the section first, then DEFAULT,
  before interpolation), and the value an INI file on disk holds for an option.
\<close>

definition state_of :: "('a, 's) result \<Rightarrow> 's" where
  "state_of r = (case r of Returned a s \<Rightarrow> s | Raised e s \<Rightarrow> s)"

definition raised :: "('a, 's) result \<Rightarrow> error option" where
  "raised r = (case r of Returned a s \<Rightarrow> None | Raised e s \<Rightarrow> Some e)"

definition stored :: "ConfigParser \<Rightarrow> string \<Rightarrow> string option" where
  "stored cp key = (case unify_values cp ''Metadata'' of Inl e \<Rightarrow> None | Inr d \<Rightarrow> d key)"

definition on_disk :: "'p content option \<Rightarrow> string \<Rightarrow> (string option) option" where
  "on_disk f key =
     (case f of
        Some (Ini d secs) \<Rightarrow> (case secs ''Metadata'' of None \<Rightarrow> None | Some sec \<Rightarrow> Some (sec key))
      | _ \<Rightarrow> None)"

text \<open>
  The lines typed at a prompt for a new value between two states of one run: the replies
  that the transcript of \<open>s'\<close> adds to that of \<open>s0\<close> at the prompts
  \<^verbatim>\<open>Enter the value for Producer: \<close> and \<^verbatim>\<open>Enter the value for Creator: \<close>. Replies to the
  prompt \<^verbatim>\<open>Do you want to use this value? (y/n): \<close> and lines never read are not among them.
\<close>

definition value_prompts :: "string list" where
  "value_prompts = [''Enter the value for Producer: '', ''Enter the value for Creator: '']"

definition entered :: "'p state \<Rightarrow> 'p state \<Rightarrow> string list" where
  "entered s0 s' =
     map snd (filter (\<lambda>reply. fst reply \<in> set value_prompts)
                (drop (length (transcript s0)) (transcript s')))"

text \<open>
  The two blocks of \<open>update_config\<close> differ in the option name only. \<open>resolve_block\<close> is
  that block and \<open>enter_value\<close> its prompt for a new value; \<open>update_config\<close> is shown below to
  be the two blocks in sequence, and the proofs go block by block.
\<close>

definition enter_value :: "string \<Rightarrow> pyobj \<Rightarrow> 'p state \<Rightarrow> (pyobj, 'p state) result" where
  "enter_value option config_file s0 =
     and_then (input (''Enter the value for '' @ option @ '': '') s0) (\<lambda>v s.
     and_then (config_set ''Metadata'' option v s) (\<lambda>_ s.
     with_open_write_config config_file s))"

definition resolve_block :: "string \<Rightarrow> string \<Rightarrow> pyobj \<Rightarrow> 'p state \<Rightarrow> (pyobj, 'p state) result" where
  "resolve_block option current config_file s0 =
     (if current \<noteq> [] then
        and_then (config_get ''Metadata'' option [] s0) (\<lambda>_ s.
        and_then (input ''Do you want to use this value? (y/n): '' s) (\<lambda>answer s.
          if lower answer = ''n'' then enter_value option config_file s
          else Returned config_file s))
      else enter_value option config_file s0)"

text \<open>
  The path \<open>process_pdf\<close> writes to, the information dictionary of the writer after
  \<open>add_metadata\<close>, and the document it writes for a source document \<open>d\<close>.
\<close>

definition output_path :: "string \<Rightarrow> string \<Rightarrow> string" where
  "output_path output_folder original_file_path =
     path_join output_folder (basename original_file_path)"

definition metadata :: "string \<Rightarrow> string \<Rightarrow> (string \<rightharpoonup> string)" where
  "metadata producer creator =
     [''/Producer'' \<mapsto> ''PyPDF2''] ++ map_of [(''/Producer'', producer), (''/Creator'', creator)]"

definition merged :: "('p \<Rightarrow> 'p \<Rightarrow> 'p) \<Rightarrow> 'p pdf \<Rightarrow> string \<Rightarrow> string \<Rightarrow> 'p pdf" where
  "merged mp d producer creator =
     \<lparr>pages = map (\<lambda>q. mp q q) (pages d), info = metadata producer creator\<rparr>"

subsection \<open>Example runs\<close>

text \<open>
  Concrete inputs for the runs evaluated below. A page is the list of its drawing operators
  (numbers here) and merging two pages appends the second list to the first. The folders are
  \<^verbatim>\<open>/app/input\<close>, \<^verbatim>\<open>/app/output\<close> and \<^verbatim>\<open>/app/config\<close>.
\<close>

definition config_ini :: string where
  "config_ini = ''/app/config/config.ini''"

definition ini_XY :: "nat list content" where
  "ini_XY = Ini Map.empty [''Metadata'' \<mapsto> [''producer'' \<mapsto> ''X'', ''creator'' \<mapsto> ''Y'']]"

definition ini_X :: "nat list content" where
  "ini_X = Ini Map.empty [''Metadata'' \<mapsto> [''producer'' \<mapsto> ''X'']]"

definition ini_note :: "nat list content" where
  "ini_note =
     Ini Map.empty [''Metadata'' \<mapsto> [''producer'' \<mapsto> ''X'', ''creator'' \<mapsto> ''Y'', ''note'' \<mapsto> []]]"

definition ini_Y :: "nat list content" where
  "ini_Y = Ini Map.empty [''Metadata'' \<mapsto> [''creator'' \<mapsto> ''Y'']]"

definition a_pdf :: "nat list content" where
  "a_pdf = Pdf \<lparr>pages = [[1], [2, 3]], info = [''/Title'' \<mapsto> ''A'']\<rparr>"

definition overlay :: "nat list \<Rightarrow> nat list \<Rightarrow> nat list" where
  "overlay page page2 = page @ page2"

definition start :: "string list \<Rightarrow> (string \<rightharpoonup> nat list content) \<Rightarrow> nat list state" where
  "start lines files =
     \<lparr>config = new_ConfigParser, stdin = lines, fs = files, written = [], pdf_reads = [],
      transcript = [], unwritable = Map.empty\<rparr>"

definition loaded :: "(string \<rightharpoonup> nat list content) \<Rightarrow> nat list state" where
  "loaded files =
     \<lparr>config = \<lparr>cp_defaults = Map.empty,
                 cp_sections = [''Metadata'' \<mapsto> [''producer'' \<mapsto> ''X'', ''creator'' \<mapsto> ''Y'']]\<rparr>,
      stdin = [], fs = files, written = [], pdf_reads = [], transcript = [],
      unwritable = Map.empty\<rparr>"

definition lenient_reply :: "nat list state" where
  "lenient_reply = start [''n'', ''Acme'', [], []] [config_ini \<mapsto> ini_XY]"

definition empty_reply :: "nat list state" where
  "empty_reply = start [''n'', [], ''y''] [config_ini \<mapsto> ini_XY]"

definition percent_reply :: "nat list state" where
  "percent_reply = start [''n'', ''%(note)s'', ''y''] [config_ini \<mapsto> ini_note]"

definition replace_both :: "nat list state" where
  "replace_both = start [''n'', ''P2'', ''n'', ''C2''] [config_ini \<mapsto> ini_XY]"

definition enter_then_replace :: "nat list state" where
  "enter_then_replace = start [''P'', ''n'', ''C''] [config_ini \<mapsto> ini_Y]"

definition first_run :: "nat list state" where
  "first_run = start [''P'', ''C''] Map.empty"

definition fresh_files :: "string \<rightharpoonup> nat list content" where
  "fresh_files = [''/app/input/a.pdf'' \<mapsto> a_pdf, ''/app/input/notes.txt'' \<mapsto> Junk ParsingError PdfReadError]"

definition stale_files :: "string \<rightharpoonup> nat list content" where
  "stale_files = [''/app/input/a.pdf'' \<mapsto> a_pdf, ''/app/input/notes.txt'' \<mapsto> Junk ParsingError PdfReadError,
                  ''/app/output/a.pdf'' \<mapsto> Junk ParsingError PdfReadError, ''/app/output/old.pdf'' \<mapsto> a_pdf]"

definition input_files :: "string \<rightharpoonup> nat list content" where
  "input_files = [''/app/input/a.pdf'' \<mapsto> a_pdf, ''/app/input/notes.txt'' \<mapsto> Junk ParsingError PdfReadError,
                  ''/app/input/B.PDF'' \<mapsto> a_pdf]"

definition broken_files :: "string \<rightharpoonup> nat list content" where
  "broken_files = [''/app/input/a.pdf'' \<mapsto> a_pdf, ''/app/input/bad.pdf'' \<mapsto> Junk ParsingError PdfReadError,
                   ''/app/input/c.pdf'' \<mapsto> a_pdf]"

definition no_creator :: "nat list state" where
  "no_creator =
     \<lparr>config = \<lparr>cp_defaults = Map.empty, cp_sections = [''Metadata'' \<mapsto> [''producer'' \<mapsto> ''X'']]\<rparr>,
      stdin = [],
      fs = [''/app/input/a.pdf'' \<mapsto> a_pdf, ''/app/output/a.pdf'' \<mapsto> Junk ParsingError PdfReadError],
      written = [], pdf_reads = [], transcript = [], unwritable = Map.empty\<rparr>"

definition batch_run :: "(unit, nat list state) result" where
  "batch_run = batch overlay ''/app/input'' ''/app/output'' [''a.pdf'', ''notes.txt'', ''B.PDF'']
                 (loaded input_files)"

definition broken_run :: "nat list state" where
  "broken_run = start [''y'', ''y''] (broken_files(config_ini \<mapsto> ini_XY))"

text \<open>
  A file with the Producer only (what a first run leaves behind) and the answer \<open>no\<close>; a
  file with the Creator only and an empty answer; both keys and the answer \<open>N\<close>.
\<close>

definition producer_only :: "nat list state" where
  "producer_only = start [''no'', ''C''] [config_ini \<mapsto> ini_X]"

definition creator_only :: "nat list state" where
  "creator_only = start [''P'', []] [config_ini \<mapsto> ini_Y]"

definition decline_upper :: "nat list state" where
  "decline_upper = start [''N'', ''Acme'', ''y''] [config_ini \<mapsto> ini_XY]"

definition read_only_output :: "nat list state" where
  "read_only_output = no_creator\<lparr>unwritable := [''/app/output/a.pdf'' \<mapsto> PermissionError]\<rparr>"

text \<open>
  A document of two pages in the page model of \<open>PageObject_merge_page\<close>: one page with a
  line of text and a font among its entries, one page with no content stream. \<open>clip\<close> puts
  the clipping operations of a page of 612 by 792 points before the operations of \<open>page2\<close>
  and renames nothing; \<open>union_entries\<close> keeps the entries of the page and adds those of
  \<open>page2\<close> it does not have.
\<close>

definition leaflet :: "string list page pdf" where
  "leaflet =
     \<lparr>pages = [\<lparr>contents = Some [Operation [''(Hello)''] ''Tj''], entries = [''/F1'']\<rparr>,
               \<lparr>contents = None, entries = []\<rparr>],
      info = Map.empty\<rparr>"

definition clip :: "string list page \<Rightarrow> string list page \<Rightarrow> operation list \<Rightarrow> operation list" where
  "clip self page2 page2content =
     Operation [''0'', ''0'', ''612'', ''792''] ''re'' # Operation [] ''W'' # Operation [] ''n'' #
     page2content"

definition union_entries :: "string list \<Rightarrow> string list \<Rightarrow> string list" where
  "union_entries own other = own @ filter (\<lambda>name. name \<notin> set own) other"

definition leaflet_run :: "string list page state" where
  "leaflet_run =
     \<lparr>config = \<lparr>cp_defaults = Map.empty,
                 cp_sections = [''Metadata'' \<mapsto> [''producer'' \<mapsto> ''X'', ''creator'' \<mapsto> ''Y'']]\<rparr>,
      stdin = [], fs = [''/app/input/leaflet.pdf'' \<mapsto> Pdf leaflet], written = [], pdf_reads = [],
      transcript = [], unwritable = Map.empty\<rparr>"

section \<open>Auxiliary lemmas\<close>

text \<open>
  The equations of the interpolation functions are unfolded by hand in the proofs about
  arbitrary values, and given to the simplifier where a concrete run is evaluated.
\<close>

declare interpolate_some.simps [simp del] interpolate_while.simps [simp del]

lemma of_char_less_256: "(of_char c :: nat) < 256"
  by (metis of_char_mod_256 mod_less_divisor zero_less_numeral)

lemma char_eq_char_of_iff: "n < 256 \<Longrightarrow> m < 256 \<Longrightarrow> (char_of (n::nat) = (char_of (m::nat) :: char)) = (n = m)"
  by (auto simp: char_of_eq_iff take_bit_eq_mod)

lemma lower_char_eq_n: "(lower_char c = CHR ''n'') = (c = CHR ''n'' \<or> c = CHR ''N'')"
proof -
  define k where "k = (of_char c :: nat)"
  have c: "c = char_of k" by (simp add: k_def)
  have k256: "k < 256" unfolding k_def by (rule of_char_less_256)
  have N: "CHR ''N'' = char_of (78::nat)" and n: "CHR ''n'' = char_of (110::nat)"
    by (simp_all add: char_of_def bit_Suc_0_iff)
  define up where "up = ((65 \<le> k \<and> k \<le> 90) \<or> (192 \<le> k \<and> k \<le> 214) \<or> (216 \<le> k \<and> k \<le> 222))"
  have lc: "lower_char c = (if up then char_of (k + 32) else c)"
    by (simp add: lower_char_def k_def up_def Let_def)
  have R: "(c = CHR ''n'') = (k = 110)" "(c = CHR ''N'') = (k = 78)"
    using k256 char_eq_char_of_iff[of k 110] char_eq_char_of_iff[of k 78]
    by (simp_all add: N n c[symmetric])
  have L: "(lower_char c = CHR ''n'') = (if up then k = 78 else k = 110)"
  proof (cases up)
    case True
    then have "k + 32 < 256" by (auto simp: up_def)
    then have "(char_of (k + 32) = (char_of (110::nat) :: char)) = (k + 32 = 110)"
      by (simp add: char_eq_char_of_iff)
    then show ?thesis using True by (simp add: lc n)
  next
    case False
    then show ?thesis by (simp add: lc R)
  qed
  show ?thesis unfolding L R by (auto simp: up_def)
qed

lemma lower_eq_n: "(lower a = ''n'') = (a = ''n'' \<or> a = ''N'')"
  by (cases a) (auto simp: lower_def lower_char_eq_n)

lemma update_config_blocks:
  "update_config cf s0 =
     and_then (config_read cf s0) (\<lambda>_ s.
     and_then (config_get ''Metadata'' ''Producer'' [] s) (\<lambda>producer s.
     and_then (config_get ''Metadata'' ''Creator'' [] s) (\<lambda>creator s.
     and_then (resolve_block ''Producer'' producer (Str cf) s) (\<lambda>config_file s.
     and_then (resolve_block ''Creator'' creator config_file s) (\<lambda>_ s. Returned () s)))))"
  unfolding update_config_def resolve_block_def enter_value_def Let_def append_Cons append_Nil ..

lemma and_then_Returned_iff:
  "(and_then r f = Returned b s') = (\<exists>a s. r = Returned a s \<and> f a s = Returned b s')"
  by (cases r) auto

lemma config_get_Returned_iff:
  "(config_get sec opt fb s = Returned v s') = (ConfigParser_get (config s) sec opt fb = Inr v \<and> s' = s)"
  by (auto simp: config_get_def split: sum.splits)

lemma optionxform_keys:
  "optionxform ''Producer'' = ''producer''" "optionxform ''Creator'' = ''creator''"
  by (simp_all add: optionxform_def lower_def lower_char_def char_of_def bit_Suc_0_iff)

lemma before_get_empty: "before_get d [] = Inr []"
  by (simp add: before_get_def MAX_INTERPOLATION_DEPTH_def interpolate_some.simps
        interpolate_while.simps)

lemma before_get_plain: "CHR ''%'' \<notin> set v \<Longrightarrow> before_get d v = Inr v"
proof -
  assume plain: "CHR ''%'' \<notin> set v"
  then have "takeWhile (\<lambda>c. c \<noteq> CHR ''%'') v = v" "dropWhile (\<lambda>c. c \<noteq> CHR ''%'') v = []"
    by (auto simp: takeWhile_eq_all_conv)
  then show ?thesis
    by (simp add: before_get_def MAX_INTERPOLATION_DEPTH_def interpolate_some.simps
          interpolate_while.simps[of d v])
qed

lemma interpolate_while_cases:
  fixes m rest depth
  defines "pre \<equiv> takeWhile (\<lambda>c. c \<noteq> CHR ''%'') rest"
    and "rest1 \<equiv> dropWhile (\<lambda>c. c \<noteq> CHR ''%'') rest"
  shows "rest = [] \<Longrightarrow> interpolate_while m rest depth = Inr []"
    and "rest \<noteq> [] \<Longrightarrow> rest1 = [] \<Longrightarrow> interpolate_while m rest depth = Inr rest"
    and "rest \<noteq> [] \<Longrightarrow> rest1 \<noteq> [] \<Longrightarrow> take 1 (drop 1 rest1) = ''%'' \<Longrightarrow>
           interpolate_while m rest depth =
             (case interpolate_while m (drop 2 rest1) depth of
                Inl e \<Rightarrow> Inl e | Inr r \<Rightarrow> Inr (pre @ ''%'' @ r))"
    and "rest \<noteq> [] \<Longrightarrow> rest1 \<noteq> [] \<Longrightarrow> take 1 (drop 1 rest1) = ''('' \<Longrightarrow>
           interpolate_while m rest depth =
             (case KEYCRE_match rest1 of
                None \<Rightarrow> Inl InterpolationSyntaxError
              | Some (name, rest2) \<Rightarrow>
                  (case m (optionxform name) of
                     None \<Rightarrow> Inl InterpolationMissingOptionError
                   | Some v \<Rightarrow>
                       (case (if CHR ''%'' \<in> set v then interpolate_some m v (depth + 1) else Inr v) of
                          Inl e \<Rightarrow> Inl e
                        | Inr a \<Rightarrow>
                            (case interpolate_while m rest2 depth of
                               Inl e \<Rightarrow> Inl e | Inr r \<Rightarrow> Inr (pre @ a @ r)))))"
    and "rest \<noteq> [] \<Longrightarrow> rest1 \<noteq> [] \<Longrightarrow> take 1 (drop 1 rest1) \<noteq> ''%'' \<Longrightarrow>
           take 1 (drop 1 rest1) \<noteq> ''('' \<Longrightarrow>
           interpolate_while m rest depth = Inl InterpolationSyntaxError"
  unfolding pre_def rest1_def
  subgoal by (subst interpolate_while.simps) simp
  subgoal by (subst interpolate_while.simps) (simp only: Let_def if_False if_True refl)
  subgoal by (subst interpolate_while.simps) (simp only: Let_def if_False if_True refl)
  subgoal
  proof -
    assume a: "rest \<noteq> []" "dropWhile (\<lambda>c. c \<noteq> CHR ''%'') rest \<noteq> []"
      "take 1 (drop 1 (dropWhile (\<lambda>c. c \<noteq> CHR ''%'') rest)) = ''(''"
    have b: "(''('' = ''%'') = False" by simp
    show ?thesis
      by (subst interpolate_while.simps) (simp only: Let_def if_False if_True refl a b)
  qed
  subgoal by (subst interpolate_while.simps) (simp only: Let_def if_False if_True refl)
  done

lemma interpolate_update_aux:
  assumes w: "m' k = Some w" "w \<noteq> []" "CHR ''%'' \<notin> set w"
  shows "\<forall>x. x \<noteq> k \<longrightarrow> m' x = m x \<Longrightarrow> interpolate_some m v depth = Inr r \<Longrightarrow>
           \<exists>r'. interpolate_some m' v depth = Inr r' \<and> (r \<noteq> [] \<longrightarrow> r' \<noteq> [])"
    and "\<forall>x. x \<noteq> k \<longrightarrow> m' x = m x \<Longrightarrow> interpolate_while m v depth = Inr r \<Longrightarrow>
           \<exists>r'. interpolate_while m' v depth = Inr r' \<and> (r \<noteq> [] \<longrightarrow> r' \<noteq> [])"
proof (induction m v depth and m v depth arbitrary: r and r
       rule: interpolate_some_interpolate_while.induct)
  case (1 m rest depth)
  from "1.prems"(2) have d: "\<not> MAX_INTERPOLATION_DEPTH < depth"
    and old: "interpolate_while m rest depth = Inr r"
    by (auto simp: interpolate_some.simps[of m rest depth] split: if_splits)
  from "1.IH"[OF d "1.prems"(1) old] d show ?case
    by (simp add: interpolate_some.simps[of _ rest depth])
next
  case (2 m rest depth)
  define pre where "pre = takeWhile (\<lambda>c. c \<noteq> CHR ''%'') rest"
  define rest1 where "rest1 = dropWhile (\<lambda>c. c \<noteq> CHR ''%'') rest"
  define c where "c = take 1 (drop 1 rest1)"
  note W = interpolate_while_cases[where rest = rest and depth = depth, folded pre_def rest1_def c_def]
  note agree = "2.prems"(1)
  note old = "2.prems"(2)
  show ?case
  proof (cases "rest = []")
    case True
    from W(1)[OF True, of m'] show ?thesis using old[unfolded W(1)[OF True, of m]] by simp
  next
    case ne: False
    show ?thesis
    proof (cases "rest1 = []")
      case True
      from W(2)[OF ne True, of m'] show ?thesis using old[unfolded W(2)[OF ne True, of m]] by simp
    next
      case r1: False
      show ?thesis
      proof (cases "c = ''%''")
        case True
        note o = old[unfolded W(3)[OF ne r1 True, of m]]
        then obtain r0 where
          old0: "interpolate_while m (drop 2 rest1) depth = Inr r0"
          by (cases "interpolate_while m (drop 2 rest1) depth") simp_all
        from "2.IH"(1)[OF ne pre_def rest1_def r1 c_def True agree old0] obtain r0' where
          "interpolate_while m' (drop 2 rest1) depth = Inr r0'" by blast
        then show ?thesis unfolding W(3)[OF ne r1 True, of m'] by simp
      next
        case np: False
        show ?thesis
        proof (cases "c = ''(''")
          case False
          from old[unfolded W(5)[OF ne r1 np False, of m]] show ?thesis by simp
        next
          case par: True
          note o = old[unfolded W(4)[OF ne r1 par, of m]]
          from o obtain name rest2 where km: "KEYCRE_match rest1 = Some (name, rest2)"
            by (cases "KEYCRE_match rest1") auto
          from o km obtain v where mv: "m (optionxform name) = Some v"
            by (cases "m (optionxform name)") auto
          define olda where "olda = (if CHR ''%'' \<in> set v then interpolate_some m v (depth + 1) else Inr v)"
          from o km mv obtain a where a: "olda = Inr a"
            by (cases olda) (auto simp: olda_def)
          from o km mv a obtain r2 where r2: "interpolate_while m rest2 depth = Inr r2"
            by (cases "interpolate_while m rest2 depth") (auto simp: olda_def)
          from o km mv a r2 have r: "r = pre @ a @ r2"
            by (auto simp: olda_def)
          from "2.IH"(3)[OF ne pre_def rest1_def r1 c_def np par km _ mv a[unfolded olda_def] agree r2]
          obtain r2' where
            r2': "interpolate_while m' rest2 depth = Inr r2'" "r2 \<noteq> [] \<longrightarrow> r2' \<noteq> []"
            by auto
          show ?thesis
          proof (cases "optionxform name = k")
            case True
            then have "m' (optionxform name) = Some w" using w(1) by simp
            with km r2' w show ?thesis unfolding W(4)[OF ne r1 par, of m'] by simp
          next
            case nk: False
            then have mv': "m' (optionxform name) = Some v" using mv agree by simp
            show ?thesis
            proof (cases "CHR ''%'' \<in> set v")
              case False
              with a have "a = v" by (simp add: olda_def)
              with km mv' r2' r False show ?thesis unfolding W(4)[OF ne r1 par, of m'] by auto
            next
              case pv: True
              with a have olda: "interpolate_some m v (depth + 1) = Inr a" by (simp add: olda_def)
              from "2.IH"(2)[OF ne pre_def rest1_def r1 c_def np par km _ mv pv agree olda] obtain a' where
                a': "interpolate_some m' v (depth + 1) = Inr a'" "a \<noteq> [] \<longrightarrow> a' \<noteq> []"
                by auto
              with km mv' r2' r pv show ?thesis unfolding W(4)[OF ne r1 par, of m'] by auto
            qed
          qed
        qed
      qed
    qed
  qed
qed

lemma before_get_update:
  assumes "before_get m v = Inr r" and "r \<noteq> []" and "w \<noteq> []" and "CHR ''%'' \<notin> set w"
  shows "\<exists>r'. before_get (m(k \<mapsto> w)) v = Inr r' \<and> r' \<noteq> []"
  using interpolate_update_aux(1)[of "m(k \<mapsto> w)" k w m v 1 r] assms
  by (auto simp: before_get_def)

lemma before_set_Inr: "before_set v = Inr v' \<Longrightarrow> v' = v"
  by (auto simp: before_set_def Let_def split: if_splits)

lemma stored_update:
  assumes "cp_sections cp ''Metadata'' = Some sec"
  shows "stored (cp\<lparr>cp_sections := (cp_sections cp)(''Metadata'' \<mapsto> sec(k \<mapsto> v))\<rparr>) k' =
           (if k' = k then Some v else stored cp k')"
  using assms by (simp add: stored_def unify_values_def)

lemma stored_get_plain:
  assumes "stored cp (optionxform opt) = Some v" and "CHR ''%'' \<notin> set v"
  shows "ConfigParser_get cp ''Metadata'' opt fb = Inr v"
  using assms
  by (auto simp: stored_def ConfigParser_get_def before_get_plain split: sum.splits)

lemma ConfigParser_set_Inr:
  assumes "ConfigParser_set cp ''Metadata'' opt v = Inr cp'"
  shows "\<exists>sec. cp_sections cp ''Metadata'' = Some sec \<and>
           cp' = cp\<lparr>cp_sections := (cp_sections cp)(''Metadata'' \<mapsto> sec(optionxform opt \<mapsto> v))\<rparr>"
  using assms
  by (auto simp: ConfigParser_set_def default_section_def dest!: before_set_Inr
      split: sum.splits option.splits if_splits)

lemma ConfigParser_set_stored:
  assumes "ConfigParser_set cp ''Metadata'' opt v = Inr cp'"
  shows "stored cp' k = (if k = optionxform opt then Some v else stored cp k)"
  using ConfigParser_set_Inr[OF assms] by (auto simp: stored_update)

lemma state_of_and_then_Returned: "state_of (and_then r (\<lambda>_ s. Returned b s)) = state_of r"
  by (cases r) (simp_all add: state_of_def)

lemma config_read_frame:
  assumes "config_read cf s0 = Returned () s1"
  shows "stdin s1 = stdin s0" "fs s1 = fs s0" "written s1 = written s0"
    "transcript s1 = transcript s0" "unwritable s1 = unwritable s0" "pdf_reads s1 = pdf_reads s0"
  using assms by (auto simp: config_read_def split: option.splits content.splits)

lemma get_after_set:
  assumes g: "ConfigParser_get cp ''Metadata'' opt [] = Inr r" and r: "r \<noteq> []"
    and st: "ConfigParser_set cp ''Metadata'' opt' w = Inr cp'"
    and other: "optionxform opt' \<noteq> optionxform opt"
    and w: "w \<noteq> []" "CHR ''%'' \<notin> set w"
  shows "\<exists>r'. ConfigParser_get cp' ''Metadata'' opt [] = Inr r' \<and> r' \<noteq> []"
proof -
  from ConfigParser_set_Inr[OF st] obtain sec where
    sec: "cp_sections cp ''Metadata'' = Some sec"
    and cp': "cp' = cp\<lparr>cp_sections := (cp_sections cp)(''Metadata'' \<mapsto> sec(optionxform opt' \<mapsto> w))\<rparr>"
    by blast
  define d where "d = cp_defaults cp ++ sec"
  have u: "unify_values cp ''Metadata'' = Inr d"
    by (simp add: unify_values_def sec d_def)
  have u': "unify_values cp' ''Metadata'' = Inr (d(optionxform opt' \<mapsto> w))"
    by (simp add: unify_values_def cp' d_def)
  from g r u obtain raw where raw: "d (optionxform opt) = Some raw" "before_get d raw = Inr r"
    by (auto simp: ConfigParser_get_def split: option.splits)
  from before_get_update[OF raw(2) r w] obtain r' where
    "before_get (d(optionxform opt' \<mapsto> w)) raw = Inr r'" "r' \<noteq> []" by blast
  with raw(1) other u' show ?thesis
    by (auto simp: ConfigParser_get_def)
qed

lemma get_own_after_set:
  assumes st: "ConfigParser_set cp ''Metadata'' opt w = Inr cp'" and w: "CHR ''%'' \<notin> set w"
  shows "ConfigParser_get cp' ''Metadata'' opt fb = Inr w"
  using ConfigParser_set_stored[OF st, of "optionxform opt"] w
  by (simp add: stored_get_plain)

lemma enter_value_Returned:
  assumes "enter_value opt cfv s = Returned cfv' s'"
  shows "\<exists>v rest path cp'. stdin s = v # rest \<and> cfv = Str path \<and> cfv' = TextIOWrapper \<and>
           unwritable s path = None \<and>
           ConfigParser_set (config s) ''Metadata'' opt v = Inr cp' \<and>
           s' = s\<lparr>stdin := rest,
                  transcript := transcript s @ [(''Enter the value for '' @ opt @ '': '', v)],
                  config := cp',
                  fs := (fs s)(path \<mapsto> config_text cp'),
                  written := written s @ [path]\<rparr>"
  using assms
  by (auto simp: enter_value_def input_def config_set_def with_open_write_config_def
        and_then_Returned_iff
      split: list.splits sum.splits option.splits pyobj.splits)

lemma resolve_block_Returned:
  assumes "resolve_block opt cur cfv s = Returned cfv' s'"
  shows "(cur \<noteq> [] \<and> cfv' = cfv \<and>
          (\<exists>a rest. stdin s = a # rest \<and> lower a \<noteq> ''n'' \<and>
             s' = s\<lparr>stdin := rest,
                    transcript := transcript s @ [(''Do you want to use this value? (y/n): '', a)]\<rparr>))
       \<or> (\<exists>v path cp' pre. cfv = Str path \<and> cfv' = TextIOWrapper \<and>
             ConfigParser_set (config s) ''Metadata'' opt v = Inr cp' \<and>
             config s' = cp' \<and>
             transcript s' = transcript s @ pre @ [(''Enter the value for '' @ opt @ '': '', v)] \<and>
             written s' = written s @ [path])"
proof (cases "cur \<noteq> [] ")
  case False
  with assms have "enter_value opt cfv s = Returned cfv' s'" by (simp add: resolve_block_def)
  from enter_value_Returned[OF this] show ?thesis by fastforce
next
  case True
  with assms obtain a rest where ins: "stdin s = a # rest"
    and k: "(if lower a = ''n''
             then enter_value opt cfv
                    (s\<lparr>stdin := rest,
                       transcript := transcript s @ [(''Do you want to use this value? (y/n): '', a)]\<rparr>)
             else Returned cfv
                    (s\<lparr>stdin := rest,
                       transcript := transcript s @ [(''Do you want to use this value? (y/n): '', a)]\<rparr>))
            = Returned cfv' s'"
    by (auto simp: resolve_block_def and_then_Returned_iff config_get_Returned_iff input_def
        split: list.splits)
  show ?thesis
  proof (cases "lower a = ''n''")
    case False
    with k True ins show ?thesis by auto
  next
    case n: True
    with k have "enter_value opt cfv
                   (s\<lparr>stdin := rest,
                      transcript := transcript s @ [(''Do you want to use this value? (y/n): '', a)]\<rparr>)
                 = Returned cfv' s'" by simp
    from enter_value_Returned[OF this] show ?thesis by fastforce
  qed
qed

lemma update_config_Returned:
  assumes "update_config cf s0 = Returned () s'"
  obtains s1 producer creator config_file s2 config_file' where
    "config_read cf s0 = Returned () s1"
    "ConfigParser_get (config s1) ''Metadata'' ''Producer'' [] = Inr producer"
    "ConfigParser_get (config s1) ''Metadata'' ''Creator'' [] = Inr creator"
    "resolve_block ''Producer'' producer (Str cf) s1 = Returned config_file s2"
    "resolve_block ''Creator'' creator config_file s2 = Returned config_file' s'"
  using assms unfolding update_config_blocks
  by (auto simp: and_then_Returned_iff config_get_Returned_iff)

lemma entered_mem:
  assumes "transcript s' = transcript s0 @ pre @ [(q, v), r]" and "q \<in> set value_prompts"
  shows "v \<in> set (entered s0 s')"
  using assms by (force simp: entered_def)

lemma entered_last:
  assumes "transcript s' = transcript s0 @ pre @ [(q, v)]" and "q \<in> set value_prompts"
  shows "v \<in> set (entered s0 s')"
  using assms by (force simp: entered_def)

lemma enter_value_stored_any:
  assumes "k \<noteq> optionxform opt"
  shows "stored (config (state_of (enter_value opt cfv s))) k = stored (config s) k"
proof (cases "stdin s")
  case Nil
  then show ?thesis by (simp add: enter_value_def input_def state_of_def)
next
  case (Cons v rest)
  show ?thesis
  proof (cases "ConfigParser_set (config s) ''Metadata'' opt v")
    case (Inl e)
    with Cons show ?thesis
      by (simp add: enter_value_def input_def config_set_def state_of_def)
  next
    case (Inr cp')
    from ConfigParser_set_stored[OF Inr, of k] assms have "stored cp' k = stored (config s) k"
      by simp
    with Cons Inr show ?thesis
      by (cases cfv)
         (simp_all add: enter_value_def input_def config_set_def state_of_def
            with_open_write_config_def split: option.splits)
  qed
qed

lemma resolve_block_stored_any:
  assumes "k \<noteq> optionxform opt"
  shows "stored (config (state_of (resolve_block opt cur cfv s))) k = stored (config s) k"
proof (cases "cur \<noteq> []")
  case False
  then show ?thesis by (simp add: resolve_block_def enter_value_stored_any[OF assms])
next
  case True
  show ?thesis
  proof (cases "ConfigParser_get (config s) ''Metadata'' opt []")
    case (Inl e)
    with True show ?thesis by (simp add: resolve_block_def config_get_def state_of_def)
  next
    case (Inr shown)
    show ?thesis
    proof (cases "stdin s")
      case Nil
      with True Inr show ?thesis
        by (simp add: resolve_block_def config_get_def input_def state_of_def)
    next
      case (Cons a rest)
      define s1 where "s1 = s\<lparr>stdin := rest,
          transcript := transcript s @ [(''Do you want to use this value? (y/n): '', a)]\<rparr>"
      have "stored (config (state_of (enter_value opt cfv s1))) k = stored (config s) k"
        using enter_value_stored_any[OF assms, of cfv s1] by (simp add: s1_def)
      with True Inr Cons show ?thesis
        by (simp add: resolve_block_def config_get_def input_def state_of_def s1_def)
    qed
  qed
qed

lemma resolve_block_answer:
  assumes "cur \<noteq> []"
    and "ConfigParser_get (config s) ''Metadata'' opt [] = Inr printed"
    and "stdin s = a # rest"
  shows "resolve_block opt cur cfv s =
           (if a = ''n'' \<or> a = ''N''
            then enter_value opt cfv
                   (s\<lparr>stdin := rest,
                      transcript := transcript s @ [(''Do you want to use this value? (y/n): '', a)]\<rparr>)
            else Returned cfv
                   (s\<lparr>stdin := rest,
                      transcript := transcript s @ [(''Do you want to use this value? (y/n): '', a)]\<rparr>))"
  using assms by (simp add: resolve_block_def config_get_def input_def lower_eq_n)

lemma endswith_slash: "endswith a ''/'' \<Longrightarrow> \<exists>y. a = y @ ''/''"
proof -
  assume "endswith a ''/''"
  then have "drop (length a - 1) a = ''/''" by (simp add: endswith_def)
  then have "a = take (length a - 1) a @ ''/''"
    by (metis append_take_drop_id)
  then show ?thesis ..
qed

lemma basename_no_slash: "CHR ''/'' \<notin> set (basename p)"
  by (auto simp: basename_def dest: set_takeWhileD)

lemma basename_path_join:
  assumes "CHR ''/'' \<notin> set b"
  shows "basename (path_join a b) = b"
proof -
  have nostart: "\<not> startswith b ''/''"
    using assms by (cases b) (auto simp: startswith_def)
  have tw: "takeWhile (\<lambda>c. c \<noteq> CHR ''/'') (rev b @ CHR ''/'' # r) = rev b" for r
    using assms by (subst takeWhile_append2) auto
  have all: "takeWhile (\<lambda>c. c \<noteq> CHR ''/'') (rev b) = rev b"
    using assms by (auto simp: takeWhile_eq_all_conv)
  show ?thesis
  proof (cases "a = [] \<or> endswith a ''/''")
    case False
    then have "path_join a b = a @ ''/'' @ b" using nostart by (simp add: path_join_def)
    then show ?thesis by (simp add: basename_def tw)
  next
    case True
    then have pj: "path_join a b = a @ b" using nostart by (simp add: path_join_def)
    from True show ?thesis
    proof
      assume "a = []"
      with pj show ?thesis by (simp add: basename_def all)
    next
      assume "endswith a ''/''"
      then obtain y where "a = y @ ''/''" using endswith_slash by blast
      with pj show ?thesis by (simp add: basename_def tw)
    qed
  qed
qed

lemma copy_pages_Returned:
  assumes "fs s path = Some (Pdf d)"
    and "\<forall>k\<in>set ks. k < length pdf2 \<and> k < length (pages d)"
  shows "copy_pages mp path pdf2 ks updater s =
           Returned (updater\<lparr>pages := pages updater @ map (\<lambda>k. mp (pdf2 ! k) (pages d ! k)) ks\<rparr>)
             (s\<lparr>pdf_reads := pdf_reads s @ replicate (length ks) path\<rparr>)"
  using assms
proof (induction ks arbitrary: updater s)
  case Nil
  then show ?case by simp
next
  case (Cons k ks)
  have "fs (s\<lparr>pdf_reads := pdf_reads s @ [path]\<rparr>) path = Some (Pdf d)"
    using Cons.prems(1) by simp
  from Cons.IH[OF this] Cons.prems show ?case
    by (simp add: PdfReader_def add_page_def replicate_append_same)
qed

lemma map_nth_same: "map (\<lambda>k. f (xs ! k) (xs ! k)) [0..<length xs] = map (\<lambda>q. f q q) xs"
  by (rule nth_equalityI) simp_all

lemma process_pdf_Pdf:
  assumes "fs s path = Some (Pdf d)"
  shows "process_pdf mp path out s =
           and_then (config_get ''Metadata'' ''Producer'' []
                       (s\<lparr>pdf_reads := pdf_reads s @ replicate (Suc (length (pages d))) path\<rparr>))
             (\<lambda>producer s.
           and_then (config_get ''Metadata'' ''Creator'' [] s) (\<lambda>creator s.
             PdfWriter_write (merged mp d producer creator) (output_path out path) s))"
proof -
  have "fs (s\<lparr>pdf_reads := pdf_reads s @ [path]\<rparr>) path = Some (Pdf d)"
    using assms by simp
  from copy_pages_Returned[OF this, of "[0..<length (pages d)]" "pages d" mp PdfWriter]
  have "copy_pages mp path (pages d) [0..<length (pages d)] PdfWriter
          (s\<lparr>pdf_reads := pdf_reads s @ [path]\<rparr>) =
          Returned (PdfWriter\<lparr>pages := map (\<lambda>q. mp q q) (pages d)\<rparr>)
            (s\<lparr>pdf_reads := pdf_reads s @ replicate (Suc (length (pages d))) path\<rparr>)"
    by (simp add: map_nth_same PdfWriter_def)
  then show ?thesis
    using assms
    by (simp add: process_pdf_def PdfReader_def Let_def add_metadata_def PdfWriter_def
          merged_def metadata_def output_path_def)
qed

lemma process_pdf_Returned:
  assumes "process_pdf mp path out s = Returned () s'"
  shows "\<exists>d producer creator.
           fs s path = Some (Pdf d) \<and>
           ConfigParser_get (config s) ''Metadata'' ''Producer'' [] = Inr producer \<and>
           ConfigParser_get (config s) ''Metadata'' ''Creator'' [] = Inr creator \<and>
           unwritable s (output_path out path) = None \<and>
           s' = s\<lparr>pdf_reads := pdf_reads s @ replicate (Suc (length (pages d))) path,
                  fs := (fs s)(output_path out path \<mapsto> Pdf (merged mp d producer creator)),
                  written := written s @ [output_path out path]\<rparr>"
proof (cases "fs s path")
  case None
  with assms show ?thesis by (simp add: process_pdf_def PdfReader_def)
next
  case (Some f)
  show ?thesis
  proof (cases f)
    case (Pdf d)
    with Some have "fs s path = Some (Pdf d)" by simp
    from assms[unfolded process_pdf_Pdf[OF this]] this show ?thesis
      by (auto simp: config_get_def PdfWriter_write_def split: sum.splits option.splits)
  qed (use assms Some in \<open>simp_all add: process_pdf_def PdfReader_def\<close>)
qed

lemma process_pdf_unreadable:
  assumes "PdfReader path s = Raised e s1"
  shows "process_pdf mp path out s = Raised e s1"
  using assms by (simp add: process_pdf_def)

lemma get_absent:
  assumes "stored cp (optionxform opt) = None"
  shows "ConfigParser_get cp ''Metadata'' opt fb = Inr fb"
  using assms by (auto simp: stored_def ConfigParser_get_def split: sum.splits)

lemma batch_append:
  "batch mp inp out (xs @ ys) s = and_then (batch mp inp out xs s) (\<lambda>_ s. batch mp inp out ys s)"
proof (induction xs arbitrary: s)
  case Nil
  show ?case by simp
next
  case (Cons n xs)
  show ?case
  proof (cases "endswith n ''.pdf''")
    case False
    then show ?thesis using Cons.IH by simp
  next
    case True
    then show ?thesis
      using Cons.IH by (cases "process_pdf mp (path_join inp n) out s") simp_all
  qed
qed

lemma batch_filter:
  "batch mp inp out listing s = batch mp inp out (filter (\<lambda>n. endswith n ''.pdf'') listing) s"
proof (induction listing arbitrary: s)
  case Nil
  show ?case by simp
next
  case (Cons n todo)
  show ?case
  proof (cases "endswith n ''.pdf''")
    case False
    then show ?thesis using Cons.IH by simp
  next
    case True
    then show ?thesis
      using Cons.IH by (cases "process_pdf mp (path_join inp n) out s") simp_all
  qed
qed

lemma batch_written:
  assumes "batch mp inp out listing s = Returned () s'"
  shows "written s' = written s @
           map (\<lambda>n. output_path out (path_join inp n)) (filter (\<lambda>n. endswith n ''.pdf'') listing)"
  using assms
proof (induction listing arbitrary: s)
  case Nil
  then show ?case by simp
next
  case (Cons n todo)
  show ?case
  proof (cases "endswith n ''.pdf''")
    case False
    with Cons show ?thesis by simp
  next
    case True
    with Cons.prems obtain s1 where
      p: "process_pdf mp (path_join inp n) out s = Returned () s1"
      and b: "batch mp inp out todo s1 = Returned () s'"
      by (auto simp: and_then_Returned_iff)
    from process_pdf_Returned[OF p] have "written s1 = written s @ [output_path out (path_join inp n)]"
      by auto
    with Cons.IH[OF b] True show ?thesis by simp
  qed
qed

lemma metadata_fields:
  "metadata producer creator ''/Producer'' = Some producer"
  "metadata producer creator ''/Creator'' = Some creator"
  by (simp_all add: metadata_def)

lemma batch_fs:
  assumes "batch mp inp out listing s = Returned () s'"
    and "ConfigParser_get (config s) ''Metadata'' ''Producer'' [] = Inr producer"
    and "ConfigParser_get (config s) ''Metadata'' ''Creator'' [] = Inr creator"
  shows "config s' = config s
       \<and> (\<forall>q. fs s' q = fs s q \<or> (\<exists>d. fs s' q = Some (Pdf d) \<and> info d = metadata producer creator))
       \<and> (\<forall>n\<in>set listing. endswith n ''.pdf'' \<longrightarrow>
            (\<exists>d. fs s' (output_path out (path_join inp n)) = Some (Pdf d)
                 \<and> info d = metadata producer creator))"
  using assms
proof (induction listing arbitrary: s)
  case Nil
  then show ?case by simp
next
  case (Cons n todo)
  show ?case
  proof (cases "endswith n ''.pdf''")
    case False
    with Cons show ?thesis by simp
  next
    case True
    with Cons.prems obtain s1 where
      p: "process_pdf mp (path_join inp n) out s = Returned () s1"
      and b: "batch mp inp out todo s1 = Returned () s'"
      by (auto simp: and_then_Returned_iff)
    from process_pdf_Returned[OF p] Cons.prems(2,3) obtain d where
      s1: "s1 = s\<lparr>pdf_reads := pdf_reads s @ replicate (Suc (length (pages d))) (path_join inp n),
                   fs := (fs s)(output_path out (path_join inp n) \<mapsto> Pdf (merged mp d producer creator)),
                   written := written s @ [output_path out (path_join inp n)]\<rparr>"
      by auto
    have c1: "config s1 = config s" by (simp add: s1)
    have step: "\<forall>q. fs s1 q = fs s q \<or> (\<exists>d. fs s1 q = Some (Pdf d) \<and> info d = metadata producer creator)"
      by (simp add: s1 merged_def)
    have own: "\<exists>d. fs s1 (output_path out (path_join inp n)) = Some (Pdf d) \<and> info d = metadata producer creator"
      by (simp add: s1 merged_def)
    note IH = Cons.IH[OF b Cons.prems(2,3)[folded c1]]
    from IH have k1: "config s' = config s" using c1 by simp
    from IH have k2: "\<forall>q. fs s' q = fs s1 q \<or> (\<exists>d. fs s' q = Some (Pdf d) \<and> info d = metadata producer creator)"
      by blast
    from IH have k3: "\<forall>n\<in>set todo. endswith n ''.pdf'' \<longrightarrow>
            (\<exists>d. fs s' (output_path out (path_join inp n)) = Some (Pdf d)
                 \<and> info d = metadata producer creator)"
      by blast
    have g2: "\<forall>q. fs s' q = fs s q \<or> (\<exists>d. fs s' q = Some (Pdf d) \<and> info d = metadata producer creator)"
      using k2 step by metis
    have g3: "\<exists>d. fs s' (output_path out (path_join inp n)) = Some (Pdf d) \<and> info d = metadata producer creator"
      using k2 own by metis
    from k1 g2 g3 k3 show ?thesis by simp
  qed
qed

lemma batch_untouched:
  assumes "batch mp inp out listing s = Returned () s'"
    and "\<forall>n\<in>set listing. endswith n ''.pdf'' \<longrightarrow> q \<noteq> output_path out (path_join inp n)"
  shows "fs s' q = fs s q"
  using assms
proof (induction listing arbitrary: s)
  case Nil
  then show ?case by simp
next
  case (Cons n todo)
  show ?case
  proof (cases "endswith n ''.pdf''")
    case False
    with Cons show ?thesis by simp
  next
    case True
    with Cons.prems obtain s1 where
      p: "process_pdf mp (path_join inp n) out s = Returned () s1"
      and b: "batch mp inp out todo s1 = Returned () s'"
      by (auto simp: and_then_Returned_iff)
    from process_pdf_Returned[OF p] Cons.prems(2) True have "fs s1 q = fs s q"
      by auto
    moreover have "fs s' q = fs s1 q"
      using Cons.IH[OF b] Cons.prems(2) by simp
    ultimately show ?thesis by simp
  qed
qed

lemma process_pdf_started:
  assumes "batch mp inp out listing s = Returned () s'"
    and "n \<in> set listing" and "endswith n ''.pdf''"
  shows "\<exists>producer creator.
           ConfigParser_get (config s) ''Metadata'' ''Producer'' [] = Inr producer \<and>
           ConfigParser_get (config s) ''Metadata'' ''Creator'' [] = Inr creator"
  using assms
proof (induction listing arbitrary: s)
  case Nil
  then show ?case by simp
next
  case (Cons m todo)
  show ?case
  proof (cases "endswith m ''.pdf''")
    case True
    with Cons.prems(1) obtain s1 where
      p: "process_pdf mp (path_join inp m) out s = Returned () s1"
      by (auto simp: and_then_Returned_iff)
    from process_pdf_Returned[OF p] show ?thesis by blast
  next
    case False
    with Cons show ?thesis by auto
  qed
qed

lemma merge_page_differs: "PageObject_merge_page clip_rename merge_entries p p \<noteq> p"
proof
  assume same: "PageObject_merge_page clip_rename merge_entries p p = p"
  show False
  proof (cases "contents p")
    case None
    with same show False
      by (metis (no_types, lifting) PageObject_merge_page_def option.distinct(1) page.select_convs(1))
  next
    case (Some original)
    define added where "added = push_pop_gs (clip_rename p p original)"
    have "contents (PageObject_merge_page clip_rename merge_entries p p)
            = Some (push_pop_gs original @ added)"
      by (simp add: PageObject_merge_page_def Some added_def)
    with same Some have "original = push_pop_gs original @ added" by simp
    then have "length original = length (push_pop_gs original @ added)" by simp
    then show False by (simp add: push_pop_gs_def)
  qed
qed

lemmas eval_simps =
  update_config_def create_config_def main_def process_pdf_def
  config_read_def read_into_def config_get_def config_set_def config_add_section_def
  ConfigParser_get_def ConfigParser_set_def ConfigParser_add_section_def
  unify_values_def before_get_def before_set_def KEYCRE_match_def
  interpolate_some.simps interpolate_while.simps
  MAX_INTERPOLATION_DEPTH_def default_section_def new_ConfigParser_def
  optionxform_def lower_def lower_char_def char_of_def bit_Suc_0_iff
  strip_def isspace_def reparsed_def config_text_def
  input_def isfile_def with_open_write_config_def
  PdfReader_def PdfWriter_def PdfWriter_write_def add_page_def add_metadata_def
  path_join_def basename_def startswith_def endswith_def
  state_of_def raised_def stored_def on_disk_def Let_def
  config_ini_def ini_XY_def a_pdf_def overlay_def start_def loaded_def

section \<open>The claims\<close>

text \<open>
  Claim C1 fails as stated: \<open>update_config\<close> checks nothing of what is typed at a prompt
  for a new value, and the value the run resolves is what \<^verbatim>\<open>config.get\<close> makes of the
  stored text. Amended: when \<open>update_config\<close> returns and every line typed at a prompt
  \<^verbatim>\<open>Enter the value for ...\<close> is non-empty and without a percent sign, \<^verbatim>\<open>config.get\<close>
  returns a non-empty Producer and a non-empty Creator afterwards. Answers to the
  confirmation prompt and lines left unread are free.
\<close>

theorem update_config_values_nonempty:
  assumes run: "update_config cf s0 = Returned () s'"
    and typed: "\<forall>v\<in>set (entered s0 s'). v \<noteq> [] \<and> CHR ''%'' \<notin> set v"
  shows "\<exists>producer creator.
           ConfigParser_get (config s') ''Metadata'' ''Producer'' [] = Inr producer \<and> producer \<noteq> [] \<and>
           ConfigParser_get (config s') ''Metadata'' ''Creator'' [] = Inr creator \<and> creator \<noteq> []"
proof -
  from run obtain s1 p c cfv s2 cfv' where
    rd: "config_read cf s0 = Returned () s1"
    and gp: "ConfigParser_get (config s1) ''Metadata'' ''Producer'' [] = Inr p"
    and gc: "ConfigParser_get (config s1) ''Metadata'' ''Creator'' [] = Inr c"
    and bp: "resolve_block ''Producer'' p (Str cf) s1 = Returned cfv s2"
    and bc: "resolve_block ''Creator'' c cfv s2 = Returned cfv' s'"
    by (rule update_config_Returned)
  have t1: "transcript s1 = transcript s0" by (rule config_read_frame(4)[OF rd])
  have other: "optionxform ''Producer'' \<noteq> optionxform ''Creator''"
    "optionxform ''Creator'' \<noteq> optionxform ''Producer''"
    by (simp_all add: optionxform_keys)
  from resolve_block_Returned[OF bp] show ?thesis
  proof (elim disjE conjE exE)
    fix a rest
    assume p: "p \<noteq> []" and cfv: "cfv = Str cf"
      and s2: "s2 = s1\<lparr>stdin := rest,
                 transcript := transcript s1 @ [(''Do you want to use this value? (y/n): '', a)]\<rparr>"
    from resolve_block_Returned[OF bc] show ?thesis
    proof (elim disjE conjE exE)
      fix a' rest'
      assume c: "c \<noteq> []"
        and s': "s' = s2\<lparr>stdin := rest',
                   transcript := transcript s2 @ [(''Do you want to use this value? (y/n): '', a')]\<rparr>"
      have "config s' = config s1" by (simp add: s' s2)
      with gp gc p c show ?thesis by simp
    next
      fix v path cp' pre
      assume st: "ConfigParser_set (config s2) ''Metadata'' ''Creator'' v = Inr cp'"
        and cp': "config s' = cp'"
        and tr: "transcript s' = transcript s2 @ pre @ [(''Enter the value for '' @ ''Creator'' @ '': '', v)]"
      have "transcript s' = transcript s0 @
              ((''Do you want to use this value? (y/n): '', a) # pre) @ [(''Enter the value for Creator: '', v)]"
        by (simp add: tr s2 t1)
      then have "v \<in> set (entered s0 s')"
        by (rule entered_last) (simp add: value_prompts_def)
      with typed have v: "v \<noteq> []" "CHR ''%'' \<notin> set v" by auto
      from st have st1: "ConfigParser_set (config s1) ''Metadata'' ''Creator'' v = Inr cp'"
        by (simp add: s2)
      from get_after_set[OF gp p st1 other(2) v] get_own_after_set[OF st1 v(2)] v(1) cp'
      show ?thesis by auto
    qed
  next
    fix v path cp' pre
    assume cfv: "cfv = TextIOWrapper"
      and st: "ConfigParser_set (config s1) ''Metadata'' ''Producer'' v = Inr cp'"
      and cp': "config s2 = cp'"
      and tr: "transcript s2 = transcript s1 @ pre @ [(''Enter the value for '' @ ''Producer'' @ '': '', v)]"
    from resolve_block_Returned[OF bc] cfv obtain a' rest' where c: "c \<noteq> []"
      and s': "s' = s2\<lparr>stdin := rest',
                 transcript := transcript s2 @ [(''Do you want to use this value? (y/n): '', a')]\<rparr>"
      by auto
    have "transcript s' = transcript s0 @ pre @
            [(''Enter the value for Producer: '', v), (''Do you want to use this value? (y/n): '', a')]"
      by (simp add: tr s' t1)
    then have "v \<in> set (entered s0 s')"
      by (rule entered_mem) (simp_all add: value_prompts_def)
    with typed have v: "v \<noteq> []" "CHR ''%'' \<notin> set v" by auto
    have "config s' = cp'" by (simp add: s' cp')
    with get_after_set[OF gc c st other(1) v] get_own_after_set[OF st v(2)] v(1)
    show ?thesis by auto
  qed
qed

text \<open>
  The operator declines the Producer \<open>X\<close> and types \<open>Acme\<close>, answers the confirmation
  for the Creator \<open>Y\<close> with an empty line and leaves one more empty line unread: the one
  line typed as a value is \<open>Acme\<close>, and the run resolves \<open>Acme\<close> and \<open>Y\<close>.
\<close>

theorem update_config_values_nonempty_witness:
  "update_config config_ini lenient_reply =
     Returned () (state_of (update_config config_ini lenient_reply))
   \<and> entered lenient_reply (state_of (update_config config_ini lenient_reply)) = [''Acme'']
   \<and> stdin (state_of (update_config config_ini lenient_reply)) = [[]]
   \<and> ConfigParser_get (config (state_of (update_config config_ini lenient_reply)))
        ''Metadata'' ''Producer'' [] = Inr ''Acme''
   \<and> ConfigParser_get (config (state_of (update_config config_ini lenient_reply)))
        ''Metadata'' ''Creator'' [] = Inr ''Y''"
proof -
  let ?s' = "state_of (update_config config_ini lenient_reply)"
  have run: "update_config config_ini lenient_reply = Returned () ?s'"
    by (simp add: eval_simps lenient_reply_def)
  have lines: "entered lenient_reply ?s' = [''Acme'']"
    by (simp add: eval_simps lenient_reply_def entered_def value_prompts_def)
  have typed: "\<forall>v\<in>set (entered lenient_reply ?s'). v \<noteq> [] \<and> CHR ''%'' \<notin> set v"
    by (simp add: lines)
  have unread: "stdin ?s' = [[]]"
    by (simp add: eval_simps lenient_reply_def)
  have vals: "ConfigParser_get (config ?s') ''Metadata'' ''Producer'' [] = Inr ''Acme''"
    "ConfigParser_get (config ?s') ''Metadata'' ''Creator'' [] = Inr ''Y''"
    by (simp_all add: eval_simps lenient_reply_def)
  from update_config_values_nonempty[OF run typed] run lines unread vals
  show ?thesis by simp
qed

text \<open>
  Two runs that return with an empty Producer. In the first the operator declines \<open>X\<close>
  and types an empty line. In the second the file also has an option \<open>note\<close> with an empty
  value and the operator types \<^verbatim>\<open>%(note)s\<close>: no line is empty, the stored text is not
  empty, and \<^verbatim>\<open>config.get\<close> returns the empty string.
\<close>

theorem update_config_empty_value_counterexample:
  "update_config config_ini empty_reply =
     Returned () (state_of (update_config config_ini empty_reply))
   \<and> ConfigParser_get (config (state_of (update_config config_ini empty_reply)))
        ''Metadata'' ''Producer'' [] = Inr []
   \<and> update_config config_ini percent_reply =
     Returned () (state_of (update_config config_ini percent_reply))
   \<and> entered percent_reply (state_of (update_config config_ini percent_reply)) = [''%(note)s'']
   \<and> stored (config (state_of (update_config config_ini percent_reply))) ''producer''
        = Some ''%(note)s''
   \<and> ConfigParser_get (config (state_of (update_config config_ini percent_reply)))
        ''Metadata'' ''Producer'' [] = Inr []"
  by (simp add: eval_simps empty_reply_def percent_reply_def ini_note_def entered_def
        value_prompts_def)

text \<open>
  Claim C2, on the input where it fails. With Producer \<open>X\<close> and Creator \<open>Y\<close> in the file,
  the operator declines both and enters \<open>P2\<close> and \<open>C2\<close>. The first replacement is written;
  the second is set in the parser, then \<^verbatim>\<open>open\<close> raises TypeError at line 119, because
  line 100 rebound \<open>config_file\<close> to the file object. The file keeps Creator \<open>Y\<close>.
\<close>

theorem creator_replacement_not_persisted:
  "raised (update_config config_ini replace_both) = Some TypeError
   \<and> stored (config (state_of (update_config config_ini replace_both))) ''creator'' = Some ''C2''
   \<and> on_disk (fs (state_of (update_config config_ini replace_both)) config_ini) ''creator''
        = Some (Some ''Y'')
   \<and> on_disk (fs (state_of (update_config config_ini replace_both)) config_ini) ''producer''
        = Some (Some ''P2'')"
  by (simp add: eval_simps replace_both_def)

text \<open>
  Claim C5, on the input where it fails. The file has no Producer and Creator \<open>Y\<close>; the
  operator enters \<open>P\<close>, declines the Creator and enters \<open>C\<close>. Both values change, the
  file is written once only: the second \<^verbatim>\<open>open\<close> (line 119) raises TypeError, the
  parser holds Creator \<open>C\<close> and the file still holds \<open>Y\<close>.
\<close>

theorem second_change_not_written:
  "raised (update_config config_ini enter_then_replace) = Some TypeError
   \<and> written (state_of (update_config config_ini enter_then_replace)) = [config_ini]
   \<and> stored (config (state_of (update_config config_ini enter_then_replace))) ''creator'' = Some ''C''
   \<and> on_disk (fs (state_of (update_config config_ini enter_then_replace)) config_ini) ''creator''
        = Some (Some ''Y'')"
  by (simp add: eval_simps enter_then_replace_def ini_Y_def)

text \<open>
  Claim C7, on the input where it fails. With no config file, \<open>create_config\<close> writes a
  file whose Metadata section has no option. The operator then enters \<open>P\<close> and \<open>C\<close>:
  Producer is written, and the \<^verbatim>\<open>open\<close> for Creator (line 127) raises TypeError, so the
  run ends with a file that has the Producer key and no Creator key.
\<close>

theorem first_run_leaves_creator_out:
  "on_disk (fs (state_of (create_config config_ini first_run)) config_ini) ''producer'' = Some None
   \<and> on_disk (fs (state_of (create_config config_ini first_run)) config_ini) ''creator'' = Some None
   \<and> raised (main overlay ''/app/output'' ''/app/input'' ''/app/config'' [] first_run)
        = Some TypeError
   \<and> on_disk (fs (state_of (main overlay ''/app/output'' ''/app/input'' ''/app/config'' [] first_run))
        config_ini) ''producer'' = Some (Some ''P'')
   \<and> on_disk (fs (state_of (main overlay ''/app/output'' ''/app/input'' ''/app/config'' [] first_run))
        config_ini) ''creator'' = Some None"
  by (simp add: eval_simps first_run_def)

text \<open>
  Claim C10. The prompt "Do you want to use this value?" is shown for a key whose value is
  not empty, whatever the other key holds. The answer counts as declining exactly when it is
  \<open>n\<close> or \<open>N\<close>.

  At the prompt for the Producer, any other answer sends the run on to the Creator with the
  parser and the files as they were after reading and \<open>config_file\<close> still the path, and
  the run ends with the stored Producer it started with; after \<open>n\<close> or \<open>N\<close> the next
  line is asked for as the new Producer. At the prompt for the Creator, reached from the state
  \<open>s2\<close> in which the Producer part ended (value kept, replaced or newly entered), any
  other answer ends \<open>update_config\<close> in \<open>s2\<close> with only the line consumed, and the stored
  Creator is the one read from the file; after \<open>n\<close> or \<open>N\<close> the next line is asked for
  as the new Creator.
\<close>

theorem confirm_declines_only_on_n:
  assumes rd: "config_read cf s0 = Returned () s1"
    and gp: "ConfigParser_get (config s1) ''Metadata'' ''Producer'' [] = Inr p"
    and gc: "ConfigParser_get (config s1) ''Metadata'' ''Creator'' [] = Inr c"
  shows "(\<forall>a. (lower a = ''n'') = (a = ''n'' \<or> a = ''N'')) \<and>
         (p \<noteq> [] \<and> stdin s1 = a1 # rest1 \<and> a1 \<noteq> ''n'' \<and> a1 \<noteq> ''N'' \<longrightarrow>
            update_config cf s0 =
              and_then (resolve_block ''Creator'' c (Str cf)
                          (s1\<lparr>stdin := rest1,
                              transcript := transcript s1 @
                                [(''Do you want to use this value? (y/n): '', a1)]\<rparr>))
                (\<lambda>_ s. Returned () s)
            \<and> stored (config (state_of (update_config cf s0))) ''producer''
                = stored (config s1) ''producer'') \<and>
         (p \<noteq> [] \<and> stdin s1 = a1 # rest1 \<and> (a1 = ''n'' \<or> a1 = ''N'') \<longrightarrow>
            update_config cf s0 =
              and_then (enter_value ''Producer'' (Str cf)
                          (s1\<lparr>stdin := rest1,
                              transcript := transcript s1 @
                                [(''Do you want to use this value? (y/n): '', a1)]\<rparr>))
                (\<lambda>config_file s.
              and_then (resolve_block ''Creator'' c config_file s) (\<lambda>_ s. Returned () s))) \<and>
         (resolve_block ''Producer'' p (Str cf) s1 = Returned config_file s2 \<and> c \<noteq> [] \<and>
          ConfigParser_get (config s2) ''Metadata'' ''Creator'' [] = Inr printed \<and>
          stdin s2 = a2 # rest2 \<and> a2 \<noteq> ''n'' \<and> a2 \<noteq> ''N'' \<longrightarrow>
            update_config cf s0 =
              Returned () (s2\<lparr>stdin := rest2,
                              transcript := transcript s2 @
                                [(''Do you want to use this value? (y/n): '', a2)]\<rparr>)
            \<and> stored (config s2) ''creator'' = stored (config s1) ''creator'') \<and>
         (resolve_block ''Producer'' p (Str cf) s1 = Returned config_file s2 \<and> c \<noteq> [] \<and>
          ConfigParser_get (config s2) ''Metadata'' ''Creator'' [] = Inr printed \<and>
          stdin s2 = a2 # rest2 \<and> (a2 = ''n'' \<or> a2 = ''N'') \<longrightarrow>
            update_config cf s0 =
              and_then (enter_value ''Creator'' config_file
                          (s2\<lparr>stdin := rest2,
                              transcript := transcript s2 @
                                [(''Do you want to use this value? (y/n): '', a2)]\<rparr>))
                (\<lambda>_ s. Returned () s))"
proof -
  have start: "update_config cf s0 =
     and_then (resolve_block ''Producer'' p (Str cf) s1) (\<lambda>config_file s.
     and_then (resolve_block ''Creator'' c config_file s) (\<lambda>_ s. Returned () s))"
    using rd gp gc by (simp add: update_config_blocks config_get_def)
  have low: "\<forall>a. (lower a = ''n'') = (a = ''n'' \<or> a = ''N'')"
    by (simp add: lower_eq_n)
  have pacc: "update_config cf s0 =
              and_then (resolve_block ''Creator'' c (Str cf)
                          (s1\<lparr>stdin := rest1,
                              transcript := transcript s1 @
                                [(''Do you want to use this value? (y/n): '', a1)]\<rparr>))
                (\<lambda>_ s. Returned () s)
            \<and> stored (config (state_of (update_config cf s0))) ''producer''
                = stored (config s1) ''producer''"
    if h: "p \<noteq> [] \<and> stdin s1 = a1 # rest1 \<and> a1 \<noteq> ''n'' \<and> a1 \<noteq> ''N''"
  proof -
    from h have b: "resolve_block ''Producer'' p (Str cf) s1 =
        Returned (Str cf) (s1\<lparr>stdin := rest1,
                              transcript := transcript s1 @
                                [(''Do you want to use this value? (y/n): '', a1)]\<rparr>)"
      using resolve_block_answer[OF _ gp, of p a1 rest1 "Str cf"] by simp
    have eq: "update_config cf s0 =
              and_then (resolve_block ''Creator'' c (Str cf)
                          (s1\<lparr>stdin := rest1,
                              transcript := transcript s1 @
                                [(''Do you want to use this value? (y/n): '', a1)]\<rparr>))
                (\<lambda>_ s. Returned () s)"
      by (simp add: start b)
    have "stored (config (state_of (update_config cf s0))) ''producer''
            = stored (config s1) ''producer''"
      unfolding eq
      by (simp add: state_of_and_then_Returned resolve_block_stored_any optionxform_keys)
    with eq show ?thesis by simp
  qed
  have pdec: "update_config cf s0 =
              and_then (enter_value ''Producer'' (Str cf)
                          (s1\<lparr>stdin := rest1,
                              transcript := transcript s1 @
                                [(''Do you want to use this value? (y/n): '', a1)]\<rparr>))
                (\<lambda>config_file s.
              and_then (resolve_block ''Creator'' c config_file s) (\<lambda>_ s. Returned () s))"
    if h: "p \<noteq> [] \<and> stdin s1 = a1 # rest1 \<and> (a1 = ''n'' \<or> a1 = ''N'')"
    using h resolve_block_answer[OF _ gp, of p a1 rest1 "Str cf"] by (simp add: start)
  have cacc: "update_config cf s0 =
              Returned () (s2\<lparr>stdin := rest2,
                              transcript := transcript s2 @
                                [(''Do you want to use this value? (y/n): '', a2)]\<rparr>)
            \<and> stored (config s2) ''creator'' = stored (config s1) ''creator''"
    if h: "resolve_block ''Producer'' p (Str cf) s1 = Returned config_file s2 \<and> c \<noteq> [] \<and>
          ConfigParser_get (config s2) ''Metadata'' ''Creator'' [] = Inr printed \<and>
          stdin s2 = a2 # rest2 \<and> a2 \<noteq> ''n'' \<and> a2 \<noteq> ''N''"
  proof -
    from h have eq: "update_config cf s0 =
              Returned () (s2\<lparr>stdin := rest2,
                              transcript := transcript s2 @
                                [(''Do you want to use this value? (y/n): '', a2)]\<rparr>)"
      using resolve_block_answer[of c s2 "''Creator''" printed a2 rest2 config_file]
      by (simp add: start)
    from h have "state_of (resolve_block ''Producer'' p (Str cf) s1) = s2"
      by (simp add: state_of_def)
    with resolve_block_stored_any[of "''creator''" "''Producer''" p "Str cf" s1]
    have "stored (config s2) ''creator'' = stored (config s1) ''creator''"
      by (simp add: optionxform_keys)
    with eq show ?thesis by simp
  qed
  have cdec: "update_config cf s0 =
              and_then (enter_value ''Creator'' config_file
                          (s2\<lparr>stdin := rest2,
                              transcript := transcript s2 @
                                [(''Do you want to use this value? (y/n): '', a2)]\<rparr>))
                (\<lambda>_ s. Returned () s)"
    if h: "resolve_block ''Producer'' p (Str cf) s1 = Returned config_file s2 \<and> c \<noteq> [] \<and>
          ConfigParser_get (config s2) ''Metadata'' ''Creator'' [] = Inr printed \<and>
          stdin s2 = a2 # rest2 \<and> (a2 = ''n'' \<or> a2 = ''N'')"
    using h resolve_block_answer[of c s2 "''Creator''" printed a2 rest2 config_file]
    by (simp add: start)
  from low pacc pdec cacc cdec show ?thesis by blast
qed

text \<open>
  With the Producer \<open>X\<close> only in the file, the answer \<open>no\<close> keeps \<open>X\<close> and the next
  line becomes the Creator. With the Creator \<open>Y\<close> only, the first line becomes the
  Producer and the empty answer keeps \<open>Y\<close>; the file is written once. With both keys,
  \<open>N\<close> makes the next line the Producer.
\<close>

theorem confirm_declines_only_on_n_witness:
  "update_config config_ini producer_only
     = Returned () (state_of (update_config config_ini producer_only))
   \<and> transcript (state_of (update_config config_ini producer_only))
       = [(''Do you want to use this value? (y/n): '', ''no''), (''Enter the value for Creator: '', ''C'')]
   \<and> stored (config (state_of (update_config config_ini producer_only))) ''producer'' = Some ''X''
   \<and> stored (config (state_of (update_config config_ini producer_only))) ''creator'' = Some ''C''
   \<and> update_config config_ini creator_only
     = Returned () (state_of (update_config config_ini creator_only))
   \<and> transcript (state_of (update_config config_ini creator_only))
       = [(''Enter the value for Producer: '', ''P''), (''Do you want to use this value? (y/n): '', [])]
   \<and> stored (config (state_of (update_config config_ini creator_only))) ''creator'' = Some ''Y''
   \<and> written (state_of (update_config config_ini creator_only)) = [config_ini]
   \<and> transcript (state_of (update_config config_ini decline_upper))
       = [(''Do you want to use this value? (y/n): '', ''N''), (''Enter the value for Producer: '', ''Acme''),
          (''Do you want to use this value? (y/n): '', ''y'')]
   \<and> stored (config (state_of (update_config config_ini decline_upper))) ''producer'' = Some ''Acme''"
proof -
  let ?X = "state_of (config_read config_ini producer_only)"
  have rdX: "config_read config_ini producer_only = Returned () ?X"
    by (simp add: eval_simps producer_only_def ini_X_def)
  have gpX: "ConfigParser_get (config ?X) ''Metadata'' ''Producer'' [] = Inr ''X''"
    and gcX: "ConfigParser_get (config ?X) ''Metadata'' ''Creator'' [] = Inr []"
    and inX: "stdin ?X = ''no'' # [''C'']"
    and stX: "stored (config ?X) ''producer'' = Some ''X''"
    by (simp_all add: eval_simps producer_only_def ini_X_def)
  have hypX: "''X'' \<noteq> [] \<and> stdin ?X = ''no'' # [''C''] \<and> ''no'' \<noteq> ''n'' \<and> ''no'' \<noteq> ''N''"
    using inX by simp
  from confirm_declines_only_on_n[OF rdX gpX gcX, where ?a1.0 = "''no''" and ?rest1.0 = "[''C'']"]
    hypX
  have "stored (config (state_of (update_config config_ini producer_only))) ''producer''
          = stored (config ?X) ''producer''"
    by blast
  with stX
  have keepX: "stored (config (state_of (update_config config_ini producer_only))) ''producer'' = Some ''X''"
    by (simp only:)
  have runX: "update_config config_ini producer_only
     = Returned () (state_of (update_config config_ini producer_only))"
    "transcript (state_of (update_config config_ini producer_only))
       = [(''Do you want to use this value? (y/n): '', ''no''), (''Enter the value for Creator: '', ''C'')]"
    "stored (config (state_of (update_config config_ini producer_only))) ''creator'' = Some ''C''"
    by (simp_all add: eval_simps producer_only_def ini_X_def)
  let ?Y = "state_of (config_read config_ini creator_only)"
  let ?Y2 = "state_of (resolve_block ''Producer'' [] (Str config_ini) ?Y)"
  have rdY: "config_read config_ini creator_only = Returned () ?Y"
    by (simp add: eval_simps creator_only_def ini_Y_def)
  have gpY: "ConfigParser_get (config ?Y) ''Metadata'' ''Producer'' [] = Inr []"
    and gcY: "ConfigParser_get (config ?Y) ''Metadata'' ''Creator'' [] = Inr ''Y''"
    and stY: "stored (config ?Y) ''creator'' = Some ''Y''"
    by (simp_all add: eval_simps creator_only_def ini_Y_def)
  have blockY: "resolve_block ''Producer'' [] (Str config_ini) ?Y = Returned TextIOWrapper ?Y2"
    and printedY: "ConfigParser_get (config ?Y2) ''Metadata'' ''Creator'' [] = Inr ''Y''"
    and inY: "stdin ?Y2 = [] # []"
    and trY: "transcript ?Y2 = [(''Enter the value for Producer: '', ''P'')]"
    and wrY: "written ?Y2 = [config_ini]"
    by (simp_all add: eval_simps resolve_block_def enter_value_def creator_only_def ini_Y_def)
  have hypY: "resolve_block ''Producer'' [] (Str config_ini) ?Y = Returned TextIOWrapper ?Y2 \<and>
      ''Y'' \<noteq> [] \<and> ConfigParser_get (config ?Y2) ''Metadata'' ''Creator'' [] = Inr ''Y'' \<and>
      stdin ?Y2 = [] # [] \<and> [] \<noteq> ''n'' \<and> [] \<noteq> ''N''"
    using blockY printedY inY by simp
  from confirm_declines_only_on_n[OF rdY gpY gcY, where config_file = TextIOWrapper and ?s2.0 = ?Y2
      and printed = "''Y''" and ?a2.0 = "[]" and ?rest2.0 = "[]"]
    hypY
  have runY: "update_config config_ini creator_only =
      Returned () (?Y2\<lparr>stdin := [], transcript := transcript ?Y2 @
                       [(''Do you want to use this value? (y/n): '', [])]\<rparr>)"
    and sameY: "stored (config ?Y2) ''creator'' = stored (config ?Y) ''creator''"
    by blast+
  from runY sameY stY trY wrY have keepY:
    "update_config config_ini creator_only
       = Returned () (state_of (update_config config_ini creator_only))"
    "transcript (state_of (update_config config_ini creator_only))
       = [(''Enter the value for Producer: '', ''P''), (''Do you want to use this value? (y/n): '', [])]"
    "stored (config (state_of (update_config config_ini creator_only))) ''creator'' = Some ''Y''"
    "written (state_of (update_config config_ini creator_only)) = [config_ini]"
    by (simp_all add: state_of_def)
  let ?N = "state_of (config_read config_ini decline_upper)"
  have rdN: "config_read config_ini decline_upper = Returned () ?N"
    by (simp add: eval_simps decline_upper_def)
  have gpN: "ConfigParser_get (config ?N) ''Metadata'' ''Producer'' [] = Inr ''X''"
    and gcN: "ConfigParser_get (config ?N) ''Metadata'' ''Creator'' [] = Inr ''Y''"
    and inN: "stdin ?N = ''N'' # [''Acme'', ''y'']"
    by (simp_all add: eval_simps decline_upper_def)
  have hypN: "''X'' \<noteq> [] \<and> stdin ?N = ''N'' # [''Acme'', ''y''] \<and> (''N'' = ''n'' \<or> ''N'' = ''N'')"
    using inN by simp
  from confirm_declines_only_on_n[OF rdN gpN gcN, where ?a1.0 = "''N''" and ?rest1.0 = "[''Acme'', ''y'']"]
    hypN
  have eqN: "update_config config_ini decline_upper =
              and_then (enter_value ''Producer'' (Str config_ini)
                          (?N\<lparr>stdin := [''Acme'', ''y''],
                              transcript := transcript ?N @
                                [(''Do you want to use this value? (y/n): '', ''N'')]\<rparr>))
                (\<lambda>config_file s.
              and_then (resolve_block ''Creator'' ''Y'' config_file s) (\<lambda>_ s. Returned () s))"
    by blast
  have declN: "transcript (state_of (update_config config_ini decline_upper))
       = [(''Do you want to use this value? (y/n): '', ''N''), (''Enter the value for Producer: '', ''Acme''),
          (''Do you want to use this value? (y/n): '', ''y'')]"
    "stored (config (state_of (update_config config_ini decline_upper))) ''producer'' = Some ''Acme''"
    unfolding eqN
    by (simp_all add: eval_simps resolve_block_def enter_value_def decline_upper_def)
  from runX keepX keepY declN show ?thesis by simp
qed

subsection \<open>Batch processing\<close>

text \<open>
  Claim C3. The loop over the input folder passes a name to \<open>process_pdf\<close> exactly when
  the name ends with \<open>.pdf\<close>, compared character by character. Names without the suffix
  have no effect at all: the loop over the whole listing equals the loop over the names with
  the suffix. When the loop returns, the files written since its start are the outputs of
  the names with the suffix, in order; a name of the listing has its output written if and
  only if it has the suffix, and the output path of a name without it is left as it was.
  Names of a directory listing contain no slash.
\<close>

theorem batch_processes_exactly_pdf_suffix:
  assumes run: "batch mp inp out listing s = Returned () s'"
    and names: "\<forall>n\<in>set listing. CHR ''/'' \<notin> set n"
  shows "batch mp inp out listing s = batch mp inp out (filter (\<lambda>n. endswith n ''.pdf'') listing) s
       \<and> written s' = written s @ map (path_join out) (filter (\<lambda>n. endswith n ''.pdf'') listing)
       \<and> (\<forall>n\<in>set listing.
            (path_join out n \<in> set (drop (length (written s)) (written s'))) = endswith n ''.pdf'')
       \<and> (\<forall>n\<in>set listing. endswith n ''.pdf'' \<longrightarrow> (\<exists>d. fs s' (path_join out n) = Some (Pdf d)))
       \<and> (\<forall>n\<in>set listing. \<not> endswith n ''.pdf'' \<longrightarrow> fs s' (path_join out n) = fs s (path_join out n))"
proof -
  have op: "output_path out (path_join inp n) = path_join out n" if "n \<in> set listing" for n
    using names that by (simp add: output_path_def basename_path_join)
  have inj: "n = m" if "path_join out n = path_join out m" "n \<in> set listing" "m \<in> set listing" for n m
  proof -
    have "basename (path_join out n) = n" "basename (path_join out m) = m"
      using that(2,3) names by (simp_all add: basename_path_join)
    with that(1) show ?thesis by metis
  qed
  have w: "written s' = written s @ map (path_join out) (filter (\<lambda>n. endswith n ''.pdf'') listing)"
    using batch_written[OF run] op by (simp cong: map_cong)
  have iff: "(path_join out n \<in> set (drop (length (written s)) (written s'))) = endswith n ''.pdf''"
    if "n \<in> set listing" for n
    using that inj by (auto simp: w)
  have made: "\<exists>d. fs s' (path_join out n) = Some (Pdf d)" if "n \<in> set listing" "endswith n ''.pdf''" for n
  proof -
    from process_pdf_started[OF run that] obtain producer creator where
      "ConfigParser_get (config s) ''Metadata'' ''Producer'' [] = Inr producer"
      "ConfigParser_get (config s) ''Metadata'' ''Creator'' [] = Inr creator"
      by blast
    from batch_fs[OF run this] that op show ?thesis by fastforce
  qed
  have kept: "fs s' (path_join out n) = fs s (path_join out n)"
    if "n \<in> set listing" "\<not> endswith n ''.pdf''" for n
  proof (rule batch_untouched[OF run], intro ballI impI)
    fix m assume "m \<in> set listing" "endswith m ''.pdf''"
    with that inj op show "path_join out n \<noteq> output_path out (path_join inp m)" by auto
  qed
  from batch_filter w iff made kept show ?thesis by blast
qed

text \<open>
  An input folder with \<open>a.pdf\<close>, \<open>notes.txt\<close> and \<open>B.PDF\<close>: only \<open>a.pdf\<close> is written to
  the output folder.
\<close>

theorem batch_processes_exactly_pdf_suffix_witness:
  "batch_run = Returned () (state_of batch_run)
   \<and> CHR ''/'' \<notin> set ''a.pdf'' \<and> CHR ''/'' \<notin> set ''notes.txt'' \<and> CHR ''/'' \<notin> set ''B.PDF''
   \<and> written (state_of batch_run) = [''/app/output/a.pdf'']
   \<and> (\<exists>d. fs (state_of batch_run) ''/app/output/a.pdf'' = Some (Pdf d))
   \<and> fs (state_of batch_run) ''/app/output/notes.txt'' = None
   \<and> fs (state_of batch_run) ''/app/output/B.PDF'' = None"
proof -
  have run: "batch overlay ''/app/input'' ''/app/output'' [''a.pdf'', ''notes.txt'', ''B.PDF'']
                 (loaded input_files) = Returned () (state_of batch_run)"
    by (simp add: eval_simps input_files_def batch_run_def)
  have names: "\<forall>n\<in>set [''a.pdf'', ''notes.txt'', ''B.PDF'']. CHR ''/'' \<notin> set n"
    by simp
  have before: "written (loaded input_files) = []"
    "fs (loaded input_files) ''/app/output/notes.txt'' = None"
    "fs (loaded input_files) ''/app/output/B.PDF'' = None"
    by (simp_all add: eval_simps input_files_def batch_run_def)
  have suffix: "endswith ''a.pdf'' ''.pdf''" "\<not> endswith ''notes.txt'' ''.pdf''"
    "\<not> endswith ''B.PDF'' ''.pdf''"
    by (simp_all add: endswith_def)
  have join: "path_join ''/app/output'' ''a.pdf'' = ''/app/output/a.pdf''"
    "path_join ''/app/output'' ''notes.txt'' = ''/app/output/notes.txt''"
    "path_join ''/app/output'' ''B.PDF'' = ''/app/output/B.PDF''"
    by (simp_all add: eval_simps)
  from batch_processes_exactly_pdf_suffix[OF run names] before suffix join
  have "written (state_of batch_run) = [''/app/output/a.pdf'']
     \<and> (\<exists>d. fs (state_of batch_run) ''/app/output/a.pdf'' = Some (Pdf d))
     \<and> fs (state_of batch_run) ''/app/output/notes.txt'' = None
     \<and> fs (state_of batch_run) ''/app/output/B.PDF'' = None"
    by simp
  with run show ?thesis by (simp add: batch_run_def)
qed

text \<open>
  Claim C4. For a source file that parses as a PDF, with \<open>producer\<close> and \<open>creator\<close> the
  values \<open>config.get\<close> returns: when the output path can be opened for writing,
  \<open>process_pdf\<close> returns and has written, under the basename of the source in the output
  folder, a document with as many pages as the source whose \<open>/Producer\<close> and \<open>/Creator\<close>
  are those two values; whatever the output path held before is replaced. When
  \<^verbatim>\<open>open(output_file_path, 'wb')\<close> raises, \<open>process_pdf\<close> ends with that exception and no
  file has changed. A key that the parser does not hold gives the empty string.
\<close>

theorem process_pdf_writes_output:
  assumes src: "fs s path = Some (Pdf d)"
    and gp: "ConfigParser_get (config s) ''Metadata'' ''Producer'' [] = Inr producer"
    and gc: "ConfigParser_get (config s) ''Metadata'' ''Creator'' [] = Inr creator"
  shows "(unwritable s (path_join out (basename path)) = None \<longrightarrow>
          (\<exists>d'. process_pdf mp path out s =
                 Returned () (s\<lparr>pdf_reads := pdf_reads s @ replicate (Suc (length (pages d))) path,
                                fs := (fs s)(path_join out (basename path) \<mapsto> Pdf d'),
                                written := written s @ [path_join out (basename path)]\<rparr>)
              \<and> length (pages d') = length (pages d)
              \<and> info d' ''/Producer'' = Some producer
              \<and> info d' ''/Creator'' = Some creator))
       \<and> (\<forall>e. unwritable s (path_join out (basename path)) = Some e \<longrightarrow>
            process_pdf mp path out s =
              Raised e (s\<lparr>pdf_reads := pdf_reads s @ replicate (Suc (length (pages d))) path\<rparr>))
       \<and> basename (path_join out (basename path)) = basename path
       \<and> (stored (config s) ''producer'' = None \<longrightarrow> producer = [])
       \<and> (stored (config s) ''creator'' = None \<longrightarrow> creator = [])"
proof -
  have ok: "process_pdf mp path out s =
          Returned () (s\<lparr>pdf_reads := pdf_reads s @ replicate (Suc (length (pages d))) path,
                         fs := (fs s)(path_join out (basename path) \<mapsto> Pdf (merged mp d producer creator)),
                         written := written s @ [path_join out (basename path)]\<rparr>)"
    if "unwritable s (path_join out (basename path)) = None"
    using gp gc that
    by (simp add: process_pdf_Pdf[OF src] config_get_def PdfWriter_write_def output_path_def)
  have fails: "process_pdf mp path out s =
          Raised e (s\<lparr>pdf_reads := pdf_reads s @ replicate (Suc (length (pages d))) path\<rparr>)"
    if "unwritable s (path_join out (basename path)) = Some e" for e
    using gp gc that
    by (simp add: process_pdf_Pdf[OF src] config_get_def PdfWriter_write_def output_path_def)
  have "length (pages (merged mp d producer creator)) = length (pages d)"
    by (simp add: merged_def)
  moreover have "info (merged mp d producer creator) ''/Producer'' = Some producer"
    "info (merged mp d producer creator) ''/Creator'' = Some creator"
    by (simp_all add: merged_def metadata_fields)
  moreover have "basename (path_join out (basename path)) = basename path"
    by (rule basename_path_join[OF basename_no_slash])
  moreover have "stored (config s) ''producer'' = None \<longrightarrow> producer = []"
    using get_absent[of "config s" "''Producer''" "[]"] gp by (auto simp: optionxform_keys)
  moreover have "stored (config s) ''creator'' = None \<longrightarrow> creator = []"
    using get_absent[of "config s" "''Creator''" "[]"] gc by (auto simp: optionxform_keys)
  ultimately show ?thesis using ok fails by blast
qed

text \<open>
  A two-page \<open>a.pdf\<close>, a configuration without Creator and an old file at the output path:
  the old file is replaced. With the output path read-only the run ends with
  PermissionError and the old file stays.
\<close>

theorem process_pdf_writes_output_witness:
  "fs no_creator ''/app/input/a.pdf'' = Some a_pdf
   \<and> ConfigParser_get (config no_creator) ''Metadata'' ''Producer'' [] = Inr ''X''
   \<and> ConfigParser_get (config no_creator) ''Metadata'' ''Creator'' [] = Inr []
   \<and> stored (config no_creator) ''creator'' = None
   \<and> fs no_creator ''/app/output/a.pdf'' = Some (Junk ParsingError PdfReadError)
   \<and> unwritable no_creator ''/app/output/a.pdf'' = None
   \<and> (\<exists>d'. process_pdf overlay ''/app/input/a.pdf'' ''/app/output'' no_creator =
              Returned () (no_creator\<lparr>pdf_reads := replicate 3 ''/app/input/a.pdf'',
                                       fs := (fs no_creator)(''/app/output/a.pdf'' \<mapsto> Pdf d'),
                                       written := [''/app/output/a.pdf'']\<rparr>)
            \<and> length (pages d') = 2
            \<and> info d' ''/Producer'' = Some ''X''
            \<and> info d' ''/Creator'' = Some [])
   \<and> unwritable read_only_output ''/app/output/a.pdf'' = Some PermissionError
   \<and> process_pdf overlay ''/app/input/a.pdf'' ''/app/output'' read_only_output =
       Raised PermissionError (read_only_output\<lparr>pdf_reads := replicate 3 ''/app/input/a.pdf''\<rparr>)
   \<and> fs (state_of (process_pdf overlay ''/app/input/a.pdf'' ''/app/output'' read_only_output))
        ''/app/output/a.pdf'' = Some (Junk ParsingError PdfReadError)"
proof -
  have src: "fs no_creator ''/app/input/a.pdf'' = Some (Pdf \<lparr>pages = [[1], [2, 3]], info = [''/Title'' \<mapsto> ''A'']\<rparr>)"
    by (simp add: no_creator_def a_pdf_def)
  have gp: "ConfigParser_get (config no_creator) ''Metadata'' ''Producer'' [] = Inr ''X''"
    by (simp add: eval_simps no_creator_def)
  have gc: "ConfigParser_get (config no_creator) ''Metadata'' ''Creator'' [] = Inr []"
    by (simp add: eval_simps no_creator_def)
  have absent: "stored (config no_creator) ''creator'' = None"
    by (simp add: eval_simps no_creator_def)
  have old: "fs no_creator ''/app/output/a.pdf'' = Some (Junk ParsingError PdfReadError)"
    by (simp add: no_creator_def)
  have opens: "unwritable no_creator ''/app/output/a.pdf'' = None"
    by (simp add: no_creator_def)
  have path: "path_join ''/app/output'' (basename ''/app/input/a.pdf'') = ''/app/output/a.pdf''"
    by (simp add: eval_simps)
  have w: "written no_creator = []" "pdf_reads no_creator = []" by (simp_all add: no_creator_def)
  from process_pdf_writes_output[OF src gp gc, of "''/app/output''" overlay] opens
  have good: "\<exists>d'. process_pdf overlay ''/app/input/a.pdf'' ''/app/output'' no_creator =
              Returned () (no_creator\<lparr>pdf_reads := replicate 3 ''/app/input/a.pdf'',
                                       fs := (fs no_creator)(''/app/output/a.pdf'' \<mapsto> Pdf d'),
                                       written := [''/app/output/a.pdf'']\<rparr>)
            \<and> length (pages d') = 2
            \<and> info d' ''/Producer'' = Some ''X''
            \<and> info d' ''/Creator'' = Some []"
    by (simp add: path w numeral_2_eq_2 numeral_3_eq_3)
  have src': "fs read_only_output ''/app/input/a.pdf'' = Some (Pdf \<lparr>pages = [[1], [2, 3]], info = [''/Title'' \<mapsto> ''A'']\<rparr>)"
    by (simp add: read_only_output_def no_creator_def a_pdf_def)
  have gp': "ConfigParser_get (config read_only_output) ''Metadata'' ''Producer'' [] = Inr ''X''"
    by (simp add: eval_simps read_only_output_def no_creator_def)
  have gc': "ConfigParser_get (config read_only_output) ''Metadata'' ''Creator'' [] = Inr []"
    by (simp add: eval_simps read_only_output_def no_creator_def)
  have locked: "unwritable read_only_output ''/app/output/a.pdf'' = Some PermissionError"
    by (simp add: read_only_output_def)
  have r: "pdf_reads read_only_output = []"
    "fs read_only_output ''/app/output/a.pdf'' = Some (Junk ParsingError PdfReadError)"
    by (simp_all add: read_only_output_def no_creator_def)
  from process_pdf_writes_output[OF src' gp' gc', of "''/app/output''" overlay] locked
  have bad: "process_pdf overlay ''/app/input/a.pdf'' ''/app/output'' read_only_output =
       Raised PermissionError (read_only_output\<lparr>pdf_reads := replicate 3 ''/app/input/a.pdf''\<rparr>)"
    by (simp add: path r numeral_3_eq_3)
  from bad r have stays: "fs (state_of (process_pdf overlay ''/app/input/a.pdf'' ''/app/output'' read_only_output))
        ''/app/output/a.pdf'' = Some (Junk ParsingError PdfReadError)"
    by (simp add: state_of_def)
  from src gp gc absent old opens good locked bad stays show ?thesis by (simp add: a_pdf_def)
qed

text \<open>
  Claim C6. When the names before \<open>bad\<close> have been processed and \<open>bad\<close>, a name with the
  suffix, cannot be opened or parsed, the loop ends with that exception in the state reached
  just before \<open>bad\<close>: nothing is caught, \<open>bad\<close> is not tried again and no name after it is
  processed. The loop is the last statement of \<open>__main__\<close>, so a run that has reached it
  ends the same way.
\<close>

theorem batch_aborts_on_unreadable_pdf:
  assumes pre: "batch mp inp out pre s = Returned () s1"
    and suffix: "endswith bad ''.pdf''"
    and unreadable: "PdfReader (path_join inp bad) s1 = Raised e s1"
  shows "batch mp inp out (pre @ bad # post) s = Raised e s1
       \<and> (isfile (path_join config_folder ''config.ini'') s0
          \<and> update_config (path_join config_folder ''config.ini'') (s0\<lparr>config := new_ConfigParser\<rparr>)
              = Returned () s
          \<longrightarrow> main mp out inp config_folder (pre @ bad # post) s0 = Raised e s1)"
proof -
  have loop: "batch mp inp out (pre @ bad # post) s = Raised e s1"
    using assms by (simp add: batch_append process_pdf_unreadable)
  then show ?thesis
    by (simp add: main_def isfile_def Let_def)
qed

text \<open>
  \<open>a.pdf\<close>, an unparsable \<open>bad.pdf\<close> and \<open>c.pdf\<close>, with both configuration values
  accepted: the run ends with PdfReadError and the output of \<open>a.pdf\<close> only.
\<close>

theorem batch_aborts_on_unreadable_pdf_witness:
  "batch overlay ''/app/input'' ''/app/output'' [''a.pdf''] (state_of (update_config config_ini broken_run))
     = Returned () (state_of (batch overlay ''/app/input'' ''/app/output'' [''a.pdf'']
                                (state_of (update_config config_ini broken_run))))
   \<and> endswith ''bad.pdf'' ''.pdf''
   \<and> isfile config_ini broken_run
   \<and> update_config config_ini broken_run = Returned () (state_of (update_config config_ini broken_run))
   \<and> main overlay ''/app/output'' ''/app/input'' ''/app/config'' [''a.pdf'', ''bad.pdf'', ''c.pdf''] broken_run
       = Raised PdfReadError
           (state_of (batch overlay ''/app/input'' ''/app/output'' [''a.pdf'']
                        (state_of (update_config config_ini broken_run))))
   \<and> fs (state_of (main overlay ''/app/output'' ''/app/input'' ''/app/config''
                     [''a.pdf'', ''bad.pdf'', ''c.pdf''] broken_run)) ''/app/output/c.pdf'' = None
   \<and> written (state_of (main overlay ''/app/output'' ''/app/input'' ''/app/config''
                     [''a.pdf'', ''bad.pdf'', ''c.pdf''] broken_run)) = [''/app/output/a.pdf'']"
proof -
  let ?s = "state_of (update_config config_ini broken_run)"
  let ?s1 = "state_of (batch overlay ''/app/input'' ''/app/output'' [''a.pdf''] ?s)"
  have pre: "batch overlay ''/app/input'' ''/app/output'' [''a.pdf''] ?s = Returned () ?s1"
    by (simp add: eval_simps broken_files_def broken_run_def)
  have suffix: "endswith ''bad.pdf'' ''.pdf''"
    by (simp add: endswith_def)
  have bad: "PdfReader (path_join ''/app/input'' ''bad.pdf'') ?s1 = Raised PdfReadError ?s1"
    by (simp add: eval_simps broken_files_def broken_run_def)
  have cf: "path_join ''/app/config'' ''config.ini'' = config_ini"
    by (simp add: eval_simps)
  have there: "isfile config_ini broken_run"
    by (simp add: eval_simps broken_files_def broken_run_def)
  have upd': "update_config config_ini broken_run = Returned () ?s"
    by (simp add: eval_simps broken_files_def broken_run_def)
  have upd: "update_config config_ini (broken_run\<lparr>config := new_ConfigParser\<rparr>) = Returned () ?s"
    using upd' by (simp add: broken_run_def start_def)
  have later: "fs ?s1 ''/app/output/c.pdf'' = None" "written ?s1 = [''/app/output/a.pdf'']"
    by (simp_all add: eval_simps broken_files_def broken_run_def)
  from batch_aborts_on_unreadable_pdf[OF pre suffix bad,
      where post = "[''c.pdf'']" and config_folder = "''/app/config''" and ?s0.0 = broken_run]
    there upd
  have "main overlay ''/app/output'' ''/app/input'' ''/app/config'' [''a.pdf'', ''bad.pdf'', ''c.pdf''] broken_run
       = Raised PdfReadError ?s1"
    by (simp add: cf)
  with pre suffix there upd' later show ?thesis by (simp add: state_of_def)
qed

text \<open>
  Claim C8. Two runs of the loop over the same listing, from any two states whose
  configurations give the same Producer and the same Creator, leave for every processed name
  output documents with equal information dictionaries, so with equal \<open>/Producer\<close> and
  \<open>/Creator\<close>. The files present before the runs, the sources among them, may differ.
\<close>

theorem metadata_deterministic:
  assumes r1: "batch mp inp out listing s = Returned () s'"
    and r2: "batch mp inp out listing t = Returned () t'"
    and same_producer: "ConfigParser_get (config t) ''Metadata'' ''Producer'' []
                          = ConfigParser_get (config s) ''Metadata'' ''Producer'' []"
    and same_creator: "ConfigParser_get (config t) ''Metadata'' ''Creator'' []
                          = ConfigParser_get (config s) ''Metadata'' ''Creator'' []"
    and n: "n \<in> set listing" "endswith n ''.pdf''"
  shows "\<exists>d1 d2. fs s' (path_join out (basename (path_join inp n))) = Some (Pdf d1)
               \<and> fs t' (path_join out (basename (path_join inp n))) = Some (Pdf d2)
               \<and> info d1 = info d2
               \<and> info d1 ''/Producer'' = info d2 ''/Producer''
               \<and> info d1 ''/Creator'' = info d2 ''/Creator''"
proof -
  from process_pdf_started[OF r1 n] obtain producer creator where
    gp: "ConfigParser_get (config s) ''Metadata'' ''Producer'' [] = Inr producer"
    and gc: "ConfigParser_get (config s) ''Metadata'' ''Creator'' [] = Inr creator"
    by blast
  from batch_fs[OF r1 gp gc] n obtain d1 where
    d1: "fs s' (output_path out (path_join inp n)) = Some (Pdf d1)"
        "info d1 = metadata producer creator"
    by blast
  from batch_fs[OF r2 gp[folded same_producer] gc[folded same_creator]] n obtain d2 where
    d2: "fs t' (output_path out (path_join inp n)) = Some (Pdf d2)"
        "info d2 = metadata producer creator"
    by blast
  from d1 d2 show ?thesis by (auto simp: output_path_def)
qed

text \<open>
  One run into an empty output folder and one into an output folder that already holds
  files.
\<close>

theorem metadata_deterministic_witness:
  "batch overlay ''/app/input'' ''/app/output'' [''a.pdf'', ''notes.txt''] (loaded fresh_files)
     = Returned () (state_of (batch overlay ''/app/input'' ''/app/output'' [''a.pdf'', ''notes.txt'']
                                (loaded fresh_files)))
   \<and> batch overlay ''/app/input'' ''/app/output'' [''a.pdf'', ''notes.txt''] (loaded stale_files)
     = Returned () (state_of (batch overlay ''/app/input'' ''/app/output'' [''a.pdf'', ''notes.txt'']
                                (loaded stale_files)))
   \<and> (\<exists>d1 d2.
         fs (state_of (batch overlay ''/app/input'' ''/app/output'' [''a.pdf'', ''notes.txt'']
                         (loaded fresh_files))) ''/app/output/a.pdf'' = Some (Pdf d1)
       \<and> fs (state_of (batch overlay ''/app/input'' ''/app/output'' [''a.pdf'', ''notes.txt'']
                         (loaded stale_files))) ''/app/output/a.pdf'' = Some (Pdf d2)
       \<and> info d1 = info d2
       \<and> info d1 ''/Producer'' = Some ''X'' \<and> info d2 ''/Creator'' = Some ''Y'')"
proof -
  let ?s' = "state_of (batch overlay ''/app/input'' ''/app/output'' [''a.pdf'', ''notes.txt'']
                         (loaded fresh_files))"
  let ?t' = "state_of (batch overlay ''/app/input'' ''/app/output'' [''a.pdf'', ''notes.txt'']
                         (loaded stale_files))"
  have r1: "batch overlay ''/app/input'' ''/app/output'' [''a.pdf'', ''notes.txt''] (loaded fresh_files)
              = Returned () ?s'"
    by (simp add: eval_simps fresh_files_def)
  have r2: "batch overlay ''/app/input'' ''/app/output'' [''a.pdf'', ''notes.txt''] (loaded stale_files)
              = Returned () ?t'"
    by (simp add: eval_simps stale_files_def)
  have same: "ConfigParser_get (config (loaded stale_files)) ''Metadata'' ''Producer'' []
                = ConfigParser_get (config (loaded fresh_files)) ''Metadata'' ''Producer'' []"
    "ConfigParser_get (config (loaded stale_files)) ''Metadata'' ''Creator'' []
                = ConfigParser_get (config (loaded fresh_files)) ''Metadata'' ''Creator'' []"
    by (simp_all add: loaded_def)
  have n: "''a.pdf'' \<in> set [''a.pdf'', ''notes.txt'']" "endswith ''a.pdf'' ''.pdf''"
    by (simp_all add: endswith_def)
  have path: "path_join ''/app/output'' (basename (path_join ''/app/input'' ''a.pdf'')) = ''/app/output/a.pdf''"
    by (simp add: eval_simps)
  from metadata_deterministic[OF r1 r2 same n] obtain d1 d2 where
    d: "fs ?s' ''/app/output/a.pdf'' = Some (Pdf d1)" "fs ?t' ''/app/output/a.pdf'' = Some (Pdf d2)"
       "info d1 = info d2"
    unfolding path by blast
  have v1: "fs ?s' ''/app/output/a.pdf'' = Some (Pdf \<lparr>pages = [[1, 1], [2, 3, 2, 3]], info = metadata ''X'' ''Y''\<rparr>)"
    by (simp add: eval_simps fresh_files_def metadata_def)
  from d(1) v1 have i1: "info d1 = metadata ''X'' ''Y''" by simp
  from d(3) i1 have i2: "info d2 = metadata ''X'' ''Y''" by simp
  have "info d1 ''/Producer'' = Some ''X''" "info d2 ''/Creator'' = Some ''Y''"
    by (simp_all only: i1 i2 metadata_fields)
  with d r1 r2 show ?thesis by blast
qed

text \<open>
  Claim C9, with \<^verbatim>\<open>PageObject.merge_page\<close> of PyPDF2 as the merge. A run of \<open>process_pdf\<close>
  that returns has opened the source once and then once more for every page (the log
  \<open>pdf_reads\<close>), and page \<open>i\<close> of the document it writes is page \<open>i\<close> of the first
  reader merged with page \<open>i\<close> of a later reader of the same file. That page differs
  from the source page: its content stream holds the operations of the source page between
  \<open>q\<close> and \<open>Q\<close>, followed by what the merge adds for the second copy.
\<close>

theorem process_pdf_merges_each_page:
  assumes run: "process_pdf (PageObject_merge_page clip_rename merge_entries) path out s
                  = Returned () s'"
  shows "\<exists>d d'. fs s path = Some (Pdf d)
           \<and> fs s' (path_join out (basename path)) = Some (Pdf d')
           \<and> pdf_reads s' = pdf_reads s @ path # replicate (length (pages d)) path
           \<and> length (pages d') = length (pages d)
           \<and> (\<forall>i<length (pages d).
                 pages d' ! i =
                   PageObject_merge_page clip_rename merge_entries (pages d ! i) (pages d ! i)
               \<and> pages d' ! i \<noteq> pages d ! i
               \<and> (\<forall>original. contents (pages d ! i) = Some original \<longrightarrow>
                    (\<exists>added. contents (pages d' ! i) = Some (push_pop_gs original @ added))))"
proof -
  let ?mp = "PageObject_merge_page clip_rename merge_entries"
  from process_pdf_Returned[OF run] obtain d producer creator where
    src: "fs s path = Some (Pdf d)"
    and s': "s' = s\<lparr>pdf_reads := pdf_reads s @ replicate (Suc (length (pages d))) path,
                    fs := (fs s)(output_path out path \<mapsto> Pdf (merged ?mp d producer creator)),
                    written := written s @ [output_path out path]\<rparr>"
    by blast
  let ?d' = "merged ?mp d producer creator"
  have out: "fs s' (path_join out (basename path)) = Some (Pdf ?d')"
    by (simp add: s' output_path_def)
  have reads: "pdf_reads s' = pdf_reads s @ path # replicate (length (pages d)) path"
    by (simp add: s')
  have len: "length (pages ?d') = length (pages d)"
    by (simp add: merged_def)
  have page: "pages ?d' ! i = ?mp (pages d ! i) (pages d ! i)" if "i < length (pages d)" for i
    using that by (simp add: merged_def)
  have differs: "?mp p p \<noteq> p" for p
    by (rule merge_page_differs)
  have keeps: "\<exists>added. contents (?mp p p) = Some (push_pop_gs original @ added)"
    if "contents p = Some original" for p original
    using that by (simp add: PageObject_merge_page_def)
  from src out reads len page differs keeps show ?thesis
    by (intro exI[of _ d] exI[of _ ?d']) simp
qed

text \<open>
  The two-page leaflet: three reads of the file, and an output whose first page holds the
  line of text twice, the second time clipped, and whose second page has an empty content
  stream where the source page had none.
\<close>

theorem process_pdf_merges_each_page_witness:
  "process_pdf (PageObject_merge_page clip union_entries) ''/app/input/leaflet.pdf'' ''/app/output''
     leaflet_run
     = Returned () (state_of (process_pdf (PageObject_merge_page clip union_entries)
                                ''/app/input/leaflet.pdf'' ''/app/output'' leaflet_run))
   \<and> fs leaflet_run ''/app/input/leaflet.pdf'' = Some (Pdf leaflet)
   \<and> pdf_reads (state_of (process_pdf (PageObject_merge_page clip union_entries)
                             ''/app/input/leaflet.pdf'' ''/app/output'' leaflet_run))
       = [''/app/input/leaflet.pdf'', ''/app/input/leaflet.pdf'', ''/app/input/leaflet.pdf'']
   \<and> fs (state_of (process_pdf (PageObject_merge_page clip union_entries)
                      ''/app/input/leaflet.pdf'' ''/app/output'' leaflet_run)) ''/app/output/leaflet.pdf''
       = Some (Pdf \<lparr>pages =
                      [\<lparr>contents = Some [Operation [] ''q'', Operation [''(Hello)''] ''Tj'',
                                         Operation [] ''Q'', Operation [] ''q'',
                                         Operation [''0'', ''0'', ''612'', ''792''] ''re'',
                                         Operation [] ''W'', Operation [] ''n'',
                                         Operation [''(Hello)''] ''Tj'', Operation [] ''Q''],
                        entries = [''/F1'']\<rparr>,
                       \<lparr>contents = Some [], entries = []\<rparr>],
                    info = [''/Producer'' \<mapsto> ''X'', ''/Creator'' \<mapsto> ''Y'']\<rparr>)
   \<and> pages leaflet ! 0 = \<lparr>contents = Some [Operation [''(Hello)''] ''Tj''], entries = [''/F1'']\<rparr>
   \<and> pages leaflet ! 1 = \<lparr>contents = None, entries = []\<rparr>"
proof -
  let ?run = "process_pdf (PageObject_merge_page clip union_entries) ''/app/input/leaflet.pdf''
                ''/app/output'' leaflet_run"
  have run: "?run = Returned () (state_of ?run)"
    by (simp add: eval_simps leaflet_run_def leaflet_def)
  have src: "fs leaflet_run ''/app/input/leaflet.pdf'' = Some (Pdf leaflet)"
    by (simp add: leaflet_run_def)
  have path: "path_join ''/app/output'' (basename ''/app/input/leaflet.pdf'') = ''/app/output/leaflet.pdf''"
    by (simp add: eval_simps)
  have before: "pdf_reads leaflet_run = []" by (simp add: leaflet_run_def)
  have written: "fs (state_of ?run) ''/app/output/leaflet.pdf''
       = Some (Pdf \<lparr>pages =
                      [\<lparr>contents = Some [Operation [] ''q'', Operation [''(Hello)''] ''Tj'',
                                         Operation [] ''Q'', Operation [] ''q'',
                                         Operation [''0'', ''0'', ''612'', ''792''] ''re'',
                                         Operation [] ''W'', Operation [] ''n'',
                                         Operation [''(Hello)''] ''Tj'', Operation [] ''Q''],
                        entries = [''/F1'']\<rparr>,
                       \<lparr>contents = Some [], entries = []\<rparr>],
                    info = [''/Producer'' \<mapsto> ''X'', ''/Creator'' \<mapsto> ''Y'']\<rparr>)"
    by (simp add: eval_simps leaflet_run_def leaflet_def PageObject_merge_page_def push_pop_gs_def
          clip_def union_entries_def fun_eq_iff)
  from process_pdf_merges_each_page[OF run] src path before
  have reads: "pdf_reads (state_of ?run)
       = [''/app/input/leaflet.pdf'', ''/app/input/leaflet.pdf'', ''/app/input/leaflet.pdf'']"
    by (auto simp: leaflet_def)
  have pages: "pages leaflet ! 0 = \<lparr>contents = Some [Operation [''(Hello)''] ''Tj''], entries = [''/F1'']\<rparr>"
    "pages leaflet ! 1 = \<lparr>contents = None, entries = []\<rparr>"
    by (simp_all add: leaflet_def)
  from run src reads written pages show ?thesis by simp
qed

end
